theory Spec2Isabelle
  imports Complex_Main
begin

chapter \<open>The programs\<close>

section \<open>Common data: errors, points, numpy indexing\<close>

text \<open>
  The Python exceptions that the modelled functions can raise are values of \<open>error\<close>;
  a function that may raise returns \<open>error + 'a\<close> with \<open>Inl\<close> for the exception.
  Floating point numbers are idealised as \<open>real\<close>; the only non-finite float that the
  control flow depends on, the initial \<open>best_model_fit = np.inf\<close>, is the value \<open>None\<close>
  of a \<open>real option\<close>. Where the rounding of a float operation decides an integer (the
  number of samples of \<open>ransac_segm\<close>), the operation is a parameter.
\<close>

datatype error = ValueError | AssertionError | IndexError | ZeroDivisionError
  | AttributeError

type_synonym point = "real \<times> real"

text \<open>\<open>xs[i]\<close> for an integer index of numpy: a negative index counts from the end,
  an index out of range raises IndexError.\<close>

definition np_index :: "'a list \<Rightarrow> int \<Rightarrow> error + 'a" where
  "np_index xs i =
     (let n = int (length xs) in
      if 0 \<le> i \<and> i < n then Inr (xs ! nat i)
      else if - n \<le> i \<and> i < 0 then Inr (xs ! nat (n + i))
      else Inl IndexError)"

text \<open>All results of a list of fallible computations, or the first exception.\<close>

fun collect :: "(error + 'a) list \<Rightarrow> error + 'a list" where
  "collect [] = Inr []"
| "collect (x # xs) =
     (case x of Inl e \<Rightarrow> Inl e
      | Inr v \<Rightarrow> (case collect xs of Inl e \<Rightarrow> Inl e | Inr vs \<Rightarrow> Inr (v # vs)))"

text \<open>\<open>arr[mask]\<close> for a boolean mask of the same length.\<close>

definition select_mask :: "'a list \<Rightarrow> bool list \<Rightarrow> 'a list" where
  "select_mask xs msk = map fst (filter snd (zip xs msk))"

text \<open>\<open>int(x)\<close> of a float truncates towards zero.\<close>

definition py_int :: "real \<Rightarrow> int" where
  "py_int x = (if 0 \<le> x then \<lfloor>x\<rfloor> else \<lceil>x\<rceil>)"

section \<open>EllipseModelSegm.criterion\<close>

text \<open>The model parameters \<open>(r_org, c_org, r_rad, c_rad, phi)\<close>.\<close>

type_synonym ellipse_params = "real \<times> real \<times> real \<times> real \<times> real"

text \<open>
  \<open>distances <= 1\<close> for one point. A zero radius makes the float quotient infinite or
  NaN, the sum is then infinite or NaN and the comparison with 1 is false: such a point
  is not inside.
\<close>

definition inside :: "ellipse_params \<Rightarrow> point \<Rightarrow> bool" where
  "inside prm p =
     (case prm of (r_org, c_org, r_rad, c_rad, phi) \<Rightarrow>
      (case p of (r_pos, c_pos) \<Rightarrow>
        (let r = r_pos - r_org; c = c_pos - c_org in
         r_rad \<noteq> 0 \<and> c_rad \<noteq> 0 \<and>
         ((r * cos phi + c * sin phi) / r_rad)\<^sup>2
           + ((r * sin phi - c * cos phi) / c_rad)\<^sup>2 \<le> 1)))"

text \<open>One summand of \<open>weights[labels_in] * (table_q[0, labels_in] - table_q[1, labels_in])\<close>:
  the weight array and both rows of the table are indexed by the label.\<close>

definition residual_term :: "real list \<Rightarrow> real list list \<Rightarrow> int \<Rightarrow> error + real" where
  "residual_term weights table_q lb =
     (case np_index weights lb of Inl e \<Rightarrow> Inl e
      | Inr w \<Rightarrow>
        (case np_index (table_q ! 0) lb of Inl e \<Rightarrow> Inl e
         | Inr q0 \<Rightarrow>
           (case np_index (table_q ! 1) lb of Inl e \<Rightarrow> Inl e
            | Inr q1 \<Rightarrow> Inr (w * (q0 - q1)))))"

text \<open>
  The three assertions come first; \<open>np.max(labels)\<close> raises ValueError on an empty array
  and \<open>table_p.shape[1]\<close> raises IndexError when the two rows differ in length. The sum
  runs over \<open>labels[inside]\<close>, the labels of the points inside.
\<close>

definition criterion ::
  "ellipse_params \<Rightarrow> point list \<Rightarrow> real list \<Rightarrow> int list \<Rightarrow> real list list \<Rightarrow> error + real"
where
  "criterion prm points weights labels table_p =
     (if \<not> (length points = length weights \<and> length weights = length labels)
      then Inl AssertionError
      else if length table_p \<noteq> 2 then Inl AssertionError
      else if labels = [] then Inl ValueError
      else if length (table_p ! 0) \<noteq> length (table_p ! 1) then Inl IndexError
      else if \<not> (Max (set labels) < int (length (table_p ! 0))) then Inl AssertionError
      else
        (let table_q = map (map (\<lambda>p. - ln p)) table_p;
             labels_in = select_mask labels (map (inside prm) points)
         in (case collect (map (residual_term weights table_q) labels_in) of
               Inl e \<Rightarrow> Inl e
             | Inr ts \<Rightarrow> Inr (sum_list ts))))"

text \<open>\<open>cost(class | indicator) = -log(table[indicator][class])\<close>: the table is read at the
  row of the indicator and the column of the class.\<close>

definition cost :: "real list list \<Rightarrow> nat \<Rightarrow> nat \<Rightarrow> real" where
  "cost table indicator cls = - ln (table ! indicator ! cls)"

text \<open>The indices of the points inside the ellipse.\<close>

definition inside_idx :: "ellipse_params \<Rightarrow> point list \<Rightarrow> nat list" where
  "inside_idx prm points = filter (\<lambda>i. inside prm (points ! i)) [0..<length points]"

text \<open>The formula of the specification, in its words: a point inside the ellipse (the
  indicator is 1) contributes its own weight times
  \<open>cost(class 0 | inside) - cost(class 1 | inside)\<close>.\<close>

definition criterion_spec ::
  "ellipse_params \<Rightarrow> point list \<Rightarrow> real list \<Rightarrow> int list \<Rightarrow> real list list \<Rightarrow> real" where
  "criterion_spec prm points weights labels table_p =
     sum_list (map (\<lambda>i. weights ! i * (cost table_p 1 0 - cost table_p 1 1))
                 (inside_idx prm points))"

text \<open>The default table of \<open>criterion\<close> and the circle of radius 1 around the origin.\<close>

definition default_table :: "real list list" where
  "default_table = [[1 / 10, 9 / 10], [9 / 10, 1 / 10]]"

definition unit_circle :: ellipse_params where
  "unit_circle = (0, 0, 1, 1, 0)"

section \<open>ransac_segm\<close>

text \<open>
  The model class is a parameter of \<open>ransac_segm\<close>: \<open>mc_new\<close> is \<open>model_class()\<close>,
  \<open>mc_estimate\<close> is \<open>model.estimate(points)\<close>, which returns the success flag
  (\<open>True\<close>, \<open>False\<close> or \<open>None\<close>) and leaves the model object in a new state,
  \<open>mc_residuals\<close> is the residual of one point (\<open>model.residuals\<close> maps it over the array)
  and \<open>mc_criterion\<close> is \<open>model.criterion(points_all, weights, labels, table_prob)\<close>.
\<close>

record 'm model_class =
  mc_new :: 'm
  mc_estimate :: "'m \<Rightarrow> point list \<Rightarrow> bool option \<times> 'm"
  mc_residuals :: "'m \<Rightarrow> point \<Rightarrow> real"
  mc_criterion ::
    "'m \<Rightarrow> point list \<Rightarrow> real list \<Rightarrow> int list \<Rightarrow> real list list \<Rightarrow> error + real"

text \<open>\<open>min_samples\<close> is a Python int or a Python float.\<close>

datatype number = PyInt int | PyFloat real

text \<open>The four local variables that the trial loop updates; \<open>best_model_fit = None\<close> is
  \<open>np.inf\<close>.\<close>

record 'm ransac_state =
  best_model :: "'m option"
  best_inlier_num :: nat
  best_model_fit :: "real option"
  best_inliers :: "bool list option"

definition init_state :: "'m ransac_state" where
  "init_state =
     \<lparr>best_model = None, best_inlier_num = 0, best_model_fit = None, best_inliers = None\<rparr>"

text \<open>
  \<open>points[np.random.randint(0, len(points), min_samples)]\<close>. The random generator is the
  function \<open>rnd\<close>: \<open>rnd t j\<close> is the raw number behind the \<open>j\<close>-th index of trial \<open>t\<close>,
  reduced to the range of the indices. \<open>randint\<close> of the numpy of the program's time
  (\<open>RandomState.randint\<close>) checks \<open>low >= high\<close> first and raises ValueError on the empty
  range, whatever the number of samples is.
\<close>

definition draw_samples ::
  "(nat \<Rightarrow> nat \<Rightarrow> nat) \<Rightarrow> point list \<Rightarrow> nat \<Rightarrow> nat \<Rightarrow> error + point list"
where
  "draw_samples rnd points min_samples t =
     (if points = [] then Inl ValueError
      else Inr (map (\<lambda>j. points ! (rnd t j mod length points)) [0..<min_samples]))"

text \<open>\<open>model_fit < best_model_fit\<close>.\<close>

definition fit_less :: "real \<Rightarrow> real option \<Rightarrow> bool" where
  "fit_less model_fit best = (case best of None \<Rightarrow> True | Some b \<Rightarrow> model_fit < b)"

text \<open>The update at the end of the loop body, for a model that was estimated.\<close>

definition accept :: "'m \<Rightarrow> bool list \<Rightarrow> real \<Rightarrow> 'm ransac_state \<Rightarrow> 'm ransac_state" where
  "accept model model_inliers model_fit st =
     (let sample_inlier_num = length (filter id model_inliers) in
      if fit_less model_fit (best_model_fit st) then
        (let st1 = st\<lparr>best_model := Some model, best_model_fit := Some model_fit\<rparr> in
         if sample_inlier_num > best_inlier_num st1
         then st1\<lparr>best_inliers := Some model_inliers, best_inlier_num := sample_inlier_num\<rparr>
         else st1)
      else st)"

text \<open>One pass through the body of the loop, trial number \<open>t\<close>.\<close>

definition ransac_trial ::
  "'m model_class \<Rightarrow> (nat \<Rightarrow> nat \<Rightarrow> nat) \<Rightarrow> point list \<Rightarrow> point list \<Rightarrow> real list \<Rightarrow> int list
   \<Rightarrow> real list list \<Rightarrow> nat \<Rightarrow> real \<Rightarrow> nat \<Rightarrow> 'm ransac_state \<Rightarrow> error + 'm ransac_state"
where
  "ransac_trial mc rnd points points_all weights labels table_prob min_samples
      residual_threshold t st =
     (case draw_samples rnd points min_samples t of
        Inl e \<Rightarrow> Inl e
      | Inr samples \<Rightarrow>
        (case mc_estimate mc (mc_new mc) samples of
           (success, model) \<Rightarrow>
             if success = Some False then Inr st
             else
               (let model_inliers =
                      map (\<lambda>p. \<bar>mc_residuals mc model p\<bar> < residual_threshold) points
                in (case mc_criterion mc model points_all weights labels table_prob of
                      Inl e \<Rightarrow> Inl e
                    | Inr model_fit \<Rightarrow> Inr (accept model model_inliers model_fit st)))))"

fun ransac_loop ::
  "(nat \<Rightarrow> 'm ransac_state \<Rightarrow> error + 'm ransac_state) \<Rightarrow> nat list \<Rightarrow> 'm ransac_state
   \<Rightarrow> error + 'm ransac_state"
where
  "ransac_loop body [] st = Inr st"
| "ransac_loop body (t # ts) st =
     (case body t st of Inl e \<Rightarrow> Inl e | Inr st' \<Rightarrow> ransac_loop body ts st')"

text \<open>
  The validation of \<open>min_samples\<close>: the number of samples, or ValueError. The product
  \<open>min_samples * len(points)\<close> of a fraction is a product of doubles, which is rounded: the
  real numbers do not determine it, and the multiplication of floats is the parameter
  \<open>float_mul\<close> (\<open>float_mul x y\<close> is the double \<open>x * y\<close>). \<open>int\<close> truncates the product.
\<close>

definition check_min_samples ::
  "(real \<Rightarrow> real \<Rightarrow> real) \<Rightarrow> number \<Rightarrow> point list \<Rightarrow> error + int" where
  "check_min_samples float_mul min_samples points =
     (case min_samples of
        PyFloat f \<Rightarrow>
          if \<not> (0 \<le> f \<and> f \<le> 1) then Inl ValueError
          else
            (let n = py_int (float_mul f (real (length points))) in
             if n < 0 then Inl ValueError else Inr n)
      | PyInt n \<Rightarrow> if n < 0 then Inl ValueError else Inr n)"

text \<open>The final estimate of the best model on the points of the tracked inlier mask.\<close>

definition final_estimate ::
  "'m model_class \<Rightarrow> point list \<Rightarrow> bool list option \<Rightarrow> 'm \<Rightarrow> 'm" where
  "final_estimate mc points inliers m =
     (case inliers of None \<Rightarrow> m
      | Some msk \<Rightarrow> snd (mc_estimate mc m (select_mask points msk)))"

definition ransac_segm ::
  "(real \<Rightarrow> real \<Rightarrow> real) \<Rightarrow> 'm model_class \<Rightarrow> (nat \<Rightarrow> nat \<Rightarrow> nat) \<Rightarrow> point list \<Rightarrow> point list \<Rightarrow> real list \<Rightarrow> int list
   \<Rightarrow> real list list \<Rightarrow> number \<Rightarrow> real \<Rightarrow> int \<Rightarrow> error + ('m option \<times> bool list option)"
where
  "ransac_segm float_mul mc rnd points points_all weights labels table_prob min_samples
      residual_threshold max_trials =
     (case check_min_samples float_mul min_samples points of
        Inl e \<Rightarrow> Inl e
      | Inr n \<Rightarrow>
          if max_trials < 0 then Inl ValueError
          else
            (case ransac_loop
                    (ransac_trial mc rnd points points_all weights labels table_prob (nat n)
                       residual_threshold)
                    [0..<nat max_trials] init_state of
               Inl e \<Rightarrow> Inl e
             | Inr st \<Rightarrow>
                 (case best_inliers st of
                    None \<Rightarrow> Inr (best_model st, None)
                  | Some msk \<Rightarrow>
                      (case best_model st of
                         None \<Rightarrow> Inl AttributeError
                       | Some m \<Rightarrow>
                           Inr (Some (final_estimate mc points (Some msk) m), Some msk)))))"

text \<open>
  What trial \<open>t\<close> does on its own, whatever the state of the loop is: the estimation fails
  (\<open>Degenerate\<close>), the criterion raises (\<open>Raised\<close>), or the trial yields its model, the
  inlier mask of the model and the criterion value of the model (\<open>Fitted\<close>).
\<close>

datatype 'm outcome = Degenerate | Raised error | Fitted 'm "bool list" real

definition trial ::
  "'m model_class \<Rightarrow> (nat \<Rightarrow> nat \<Rightarrow> nat) \<Rightarrow> point list \<Rightarrow> point list \<Rightarrow> real list \<Rightarrow> int list
   \<Rightarrow> real list list \<Rightarrow> nat \<Rightarrow> real \<Rightarrow> nat \<Rightarrow> 'm outcome"
where
  "trial mc rnd points points_all weights labels table_prob min_samples residual_threshold t =
     (case mc_estimate mc (mc_new mc)
             (map (\<lambda>j. points ! (rnd t j mod length points)) [0..<min_samples]) of
        (success, model) \<Rightarrow>
          if success = Some False then Degenerate
          else
            (case mc_criterion mc model points_all weights labels table_prob of
               Inl e \<Rightarrow> Raised e
             | Inr model_fit \<Rightarrow>
                 Fitted model
                   (map (\<lambda>p. \<bar>mc_residuals mc model p\<bar> < residual_threshold) points)
                   model_fit))"

text \<open>The number of samples of a trial, for a \<open>min_samples\<close> that passes the validation.\<close>

definition sample_count :: "(real \<Rightarrow> real \<Rightarrow> real) \<Rightarrow> number \<Rightarrow> point list \<Rightarrow> nat" where
  "sample_count float_mul min_samples points =
     (case check_min_samples float_mul min_samples points of Inl e \<Rightarrow> 0 | Inr n \<Rightarrow> nat n)"

text \<open>The criterion values of the successful trials, in the order of the trials.\<close>

definition fits :: "'m outcome list \<Rightarrow> real list" where
  "fits outs = concat (map (\<lambda>out. case out of Fitted m i f \<Rightarrow> [f] | _ \<Rightarrow> []) outs)"

text \<open>\<open>np.sum(model_inliers)\<close> of a trial.\<close>

definition inlier_num :: "'m outcome \<Rightarrow> nat" where
  "inlier_num out = (case out of Fitted m i f \<Rightarrow> length (filter id i) | _ \<Rightarrow> 0)"

text \<open>Trial \<open>t\<close> improves the criterion: its model was estimated and its criterion value is
  below the values of all successful trials before it.\<close>

definition improving :: "'m outcome list \<Rightarrow> nat \<Rightarrow> bool" where
  "improving outs t =
     (t < length outs \<and>
      (case outs ! t of
         Fitted m i f \<Rightarrow> (\<forall>f' \<in> set (fits (take t outs)). f < f')
       | _ \<Rightarrow> False))"

text \<open>The loop in terms of the outcomes of its trials.\<close>

fun run_outs :: "'m outcome list \<Rightarrow> 'm ransac_state \<Rightarrow> error + 'm ransac_state" where
  "run_outs [] st = Inr st"
| "run_outs (Degenerate # os) st = run_outs os st"
| "run_outs (Raised e # os) st = Inl e"
| "run_outs (Fitted m i f # os) st = run_outs os (accept m i f st)"

text \<open>The invariants of the loop after the trials \<open>outs\<close>: the best model and its
  criterion value, and the tracked inlier mask and its number of inliers.\<close>

definition inv_model :: "'m outcome list \<Rightarrow> 'm ransac_state \<Rightarrow> bool" where
  "inv_model outs st \<longleftrightarrow>
     (best_model_fit st = None \<longleftrightarrow> best_model st = None) \<and>
     (best_model st = None \<longrightarrow> fits outs = []) \<and>
     (\<forall>m. best_model st = Some m \<longrightarrow>
        (\<exists>j i f. j < length outs \<and> outs ! j = Fitted m i f \<and> best_model_fit st = Some f \<and>
           (\<forall>f' \<in> set (fits outs). f \<le> f') \<and>
           (\<forall>f' \<in> set (fits (take j outs)). f < f')))"

definition inv_inliers :: "'m outcome list \<Rightarrow> 'm ransac_state \<Rightarrow> bool" where
  "inv_inliers outs st \<longleftrightarrow>
     (\<forall>t. improving outs t \<longrightarrow> inlier_num (outs ! t) \<le> best_inlier_num st) \<and>
     (best_inliers st = None \<longrightarrow> best_inlier_num st = 0) \<and>
     (best_inliers st \<noteq> None \<longrightarrow> best_model st \<noteq> None) \<and>
     (\<forall>msk. best_inliers st = Some msk \<longrightarrow>
        0 < best_inlier_num st \<and>
        (\<exists>t m f. improving outs t \<and> outs ! t = Fitted m msk f \<and>
           length (filter id msk) = best_inlier_num st \<and>
           (\<forall>s<t. improving outs s \<longrightarrow> inlier_num (outs ! s) < best_inlier_num st)))"

text \<open>A small model class on which the loop can be run: a model is a point, estimated as
  the first sample (no sample: failure), the residual of a point is the distance of the
  rows and the criterion is the column of the model.\<close>

definition point_model :: "point model_class" where
  "point_model =
     \<lparr>mc_new = (0, 0),
      mc_estimate = (\<lambda>m samples. case samples of [] \<Rightarrow> (Some False, m) | p # ps \<Rightarrow> (Some True, p)),
      mc_residuals = (\<lambda>m p. fst p - fst m),
      mc_criterion = (\<lambda>m points_all weights labels table_prob. Inr (snd m))\<rparr>"

text \<open>Two arrays of three points for the runs.\<close>

definition pts3 :: "point list" where "pts3 = [(0, 5), (1, 5), (10, 4)]"

definition pts3b :: "point list" where "pts3b = [(10, 4), (0, 5), (1, 5)]"

section \<open>add_overlap_ellipse\<close>

text \<open>
  The canvas \<open>segm\<close> is a two-dimensional array of integer labels, a list of rows.
  The rasterizer \<open>tl_visu.ellipse\<close> belongs to the module \<open>segmentation.utils.drawing\<close>:
  it is the parameter \<open>ellipse\<close>, which maps the truncated parameters, the
  orientation and the shape of the canvas to the pixels \<open>(rr, cc)\<close> of the ellipse.
  The function changes the canvas in place and returns it: the value returned is the
  new content of the input array.
\<close>

type_synonym canvas = "int list list"

type_synonym rasterizer = "int \<Rightarrow> int \<Rightarrow> int \<Rightarrow> int \<Rightarrow> real \<Rightarrow> nat \<times> nat \<Rightarrow> (nat \<times> nat) list"

definition shape :: "canvas \<Rightarrow> nat \<times> nat" where
  "shape segm = (length segm, (case segm of [] \<Rightarrow> 0 | row # rows \<Rightarrow> length row))"

text \<open>The positions of the canvas, row by row.\<close>

definition coords :: "canvas \<Rightarrow> (nat \<times> nat) list" where
  "coords segm =
     concat (map (\<lambda>r. map (\<lambda>c. (r, c)) [0..<length (segm ! r)]) [0..<length segm])"

text \<open>\<open>np.sum(np.logical_and(segm == lb, mask == 1))\<close>, \<open>np.sum(segm == lb)\<close> and
  \<open>np.sum(mask == 1)\<close>, where the mask is 1 on the pixels \<open>px\<close>.\<close>

definition overlap_num :: "canvas \<Rightarrow> (nat \<times> nat) list \<Rightarrow> int \<Rightarrow> nat" where
  "overlap_num segm px lb =
     length (filter (\<lambda>(r, c). segm ! r ! c = lb \<and> (r, c) \<in> set px) (coords segm))"

definition label_num :: "canvas \<Rightarrow> int \<Rightarrow> nat" where
  "label_num segm lb = length (filter (\<lambda>(r, c). segm ! r ! c = lb) (coords segm))"

definition mask_num :: "canvas \<Rightarrow> (nat \<times> nat) list \<Rightarrow> nat" where
  "mask_num segm px = length (filter (\<lambda>rc. rc \<in> set px) (coords segm))"

text \<open>The loop over the labels: \<open>Inr True\<close> when a ratio exceeds the threshold (the
  function returns there), ZeroDivisionError when the smaller size is zero.\<close>

fun overlap_loop :: "canvas \<Rightarrow> (nat \<times> nat) list \<Rightarrow> real \<Rightarrow> int list \<Rightarrow> error + bool" where
  "overlap_loop segm px thr_overlap [] = Inr False"
| "overlap_loop segm px thr_overlap (lb # lbs) =
     (let overlap = overlap_num segm px lb;
          sizes = min (label_num segm lb) (mask_num segm px)
      in if sizes = 0 then Inl ZeroDivisionError
         else if real overlap / real sizes > thr_overlap then Inr True
         else overlap_loop segm px thr_overlap lbs)"

text \<open>\<open>segm[mask == 1] = label\<close>.\<close>

definition paint :: "canvas \<Rightarrow> (nat \<times> nat) list \<Rightarrow> int \<Rightarrow> canvas" where
  "paint segm px label =
     map (\<lambda>r. map (\<lambda>c. if (r, c) \<in> set px then label else segm ! r ! c)
                 [0..<length (segm ! r)])
       [0..<length segm]"

definition add_overlap_ellipse ::
  "rasterizer \<Rightarrow> canvas \<Rightarrow> ellipse_params option \<Rightarrow> int \<Rightarrow> real \<Rightarrow> error + canvas" where
  "add_overlap_ellipse ellipse segm ellipse_params label thr_overlap =
     (case ellipse_params of
        None \<Rightarrow> Inr segm
      | Some (c1, c2, h, w, phi) \<Rightarrow>
          (let px = ellipse (py_int c1) (py_int c2) (py_int h) (py_int w) phi (shape segm) in
           if \<exists>(r, c) \<in> set px. \<not> (r < fst (shape segm) \<and> c < snd (shape segm))
           then Inl IndexError
           else if concat segm = [] then Inl ValueError
           else
             (case overlap_loop segm px thr_overlap [1..Max (set (concat segm))] of
                Inl e \<Rightarrow> Inl e
              | Inr True \<Rightarrow> Inr segm
              | Inr False \<Rightarrow> Inr (paint segm px label))))"

section \<open>Boundary points\<close>

text \<open>
  The functions of the module \<open>segmentation.descriptors\<close> (\<open>seg_fts\<close>) and the
  morphological operations of scipy and skimage are the fields of the parameter \<open>fts\<close>. \<open>opening_disk img sel\<close> is \<open>morphology.opening(img, morphology.disk(sel))\<close>.
\<close>

type_synonym bimage = "bool list list"

datatype edge = Up | Down

record seg_fts =
  binary_fill_holes :: "bimage \<Rightarrow> bimage"
  opening_disk :: "bimage \<Rightarrow> real \<Rightarrow> bimage"
  compute_ray_features_segm_2d :: "bimage \<Rightarrow> point \<Rightarrow> edge \<Rightarrow> real list"
  reconstruct_ray_features_2d :: "point \<Rightarrow> real list \<Rightarrow> real \<Rightarrow> point list"
  reduce_close_points :: "point list \<Rightarrow> real \<Rightarrow> point list"

definition split_segm_background_foreground ::
  "seg_fts \<Rightarrow> canvas \<Rightarrow> real \<Rightarrow> real \<Rightarrow> bimage \<times> bimage" where
  "split_segm_background_foreground fts seg sel_bg sel_fg =
     (let seg_bg0 = map (map (\<lambda>v. 0 < v)) seg;
          seg_bg1 = map (map Not) (binary_fill_holes fts seg_bg0);
          seg_bg = (if 0 < sel_bg then opening_disk fts seg_bg1 sel_bg else seg_bg1);
          seg_fg0 = map (map (\<lambda>v. v = 1)) seg;
          seg_fg = (if 0 < sel_fg then opening_disk fts seg_fg0 sel_fg else seg_fg0)
      in (seg_bg, seg_fg))"

text \<open>\<open>ray[ray < min_diam] = min_diam\<close>.\<close>

definition clamp_rays :: "real \<Rightarrow> real list \<Rightarrow> real list" where
  "clamp_rays min_diam ray = map (\<lambda>x. if x < min_diam then min_diam else x) ray"

definition prepare_boundary_points_ray_join ::
  "seg_fts \<Rightarrow> canvas \<Rightarrow> point list \<Rightarrow> real \<Rightarrow> real \<Rightarrow> real \<Rightarrow> real \<Rightarrow> point list list" where
  "prepare_boundary_points_ray_join fts seg centers close_points min_diam sel_bg sel_fg =
     (case split_segm_background_foreground fts seg sel_bg sel_fg of
        (seg_bg, seg_fg) \<Rightarrow>
          map (\<lambda>center.
                 (let ray_bg = clamp_rays min_diam
                                 (compute_ray_features_segm_2d fts seg_bg center Up);
                      points_bg = reduce_close_points fts
                                    (reconstruct_ray_features_2d fts center ray_bg 0)
                                    close_points;
                      ray_fc = clamp_rays min_diam
                                 (compute_ray_features_segm_2d fts seg_fg center Down);
                      points_fc = reduce_close_points fts
                                    (reconstruct_ray_features_2d fts center ray_fc 0)
                                    close_points
                  in points_bg @ points_fc))
              centers)"

text \<open>The Euclidean distance of \<open>cdist\<close> and \<open>np.argmin\<close>, which returns the first index
  of the least value.\<close>

definition euclid :: "point \<Rightarrow> point \<Rightarrow> real" where
  "euclid p q = sqrt ((fst p - fst q)\<^sup>2 + (snd p - snd q)\<^sup>2)"

definition argmin :: "real list \<Rightarrow> nat" where
  "argmin xs = length (takeWhile (\<lambda>x. x \<noteq> Min (set xs)) xs)"

definition close_center_of :: "point list \<Rightarrow> point \<Rightarrow> nat" where
  "close_center_of centers p = argmin (map (euclid p) centers)"

text \<open>The loop \<open>for i in range(close_center.max() + 1)\<close> with
  \<open>points[close_center == i]\<close>.\<close>

definition group_by_center :: "point list \<Rightarrow> point list \<Rightarrow> point list list" where
  "group_by_center centers points =
     (let close_center = map (close_center_of centers) points
      in map (\<lambda>i. select_mask points (map (\<lambda>k. k = i) close_center))
           [0..<Suc (Max (set close_center))])"

text \<open>\<open>np.asarray(centers).shape[1]\<close> is 2 for a list of centres that is not empty and
  raises IndexError for the empty list. \<open>np.array((0, 2))\<close> is the array \<open>[0, 2]\<close>, which
  \<open>np.vstack\<close> takes as the first row of \<open>points\<close>.\<close>

definition prepare_boundary_points_ray_dist ::
  "seg_fts \<Rightarrow> canvas \<Rightarrow> point list \<Rightarrow> real \<Rightarrow> real \<Rightarrow> real \<Rightarrow> error + point list list" where
  "prepare_boundary_points_ray_dist fts seg centers close_points sel_bg sel_fg =
     (case split_segm_background_foreground fts seg sel_bg sel_fg of
        (seg_bg, seg_fg) \<Rightarrow>
          if centers = [] then Inl IndexError
          else
            (let points0 = [(0, 2)];
                 points = points0 @ concat (map (\<lambda>center.
                     (let ray = compute_ray_features_segm_2d fts seg_bg center Up;
                          points_bg = reconstruct_ray_features_2d fts center ray 0
                      in reduce_close_points fts points_bg close_points)) centers)
             in Inr (group_by_center centers points)))"

text \<open>\<open>prepare_boundary_points_close\<close>: the superpixels and \<open>filter_boundary_points\<close> give
  the points \<open>points_all\<close> (the parameter \<open>boundary\<close>); without points or without centres
  \<open>argmin\<close> or \<open>max\<close> raises ValueError.\<close>

definition prepare_boundary_points_close ::
  "(canvas \<Rightarrow> real \<Rightarrow> real \<Rightarrow> point list) \<Rightarrow> canvas \<Rightarrow> point list \<Rightarrow> real \<Rightarrow> real
   \<Rightarrow> error + point list list" where
  "prepare_boundary_points_close boundary seg centers sp_size rltv_compact =
     (let points_all = boundary seg sp_size rltv_compact
      in if points_all = [] \<or> centers = [] then Inl ValueError
         else Inr (group_by_center centers points_all))"

text \<open>No two points of a list are closer to each other than the threshold.\<close>

definition far_apart :: "real \<Rightarrow> point list \<Rightarrow> bool" where
  "far_apart thr ps = sorted_wrt (\<lambda>p q. thr \<le> euclid p q) ps"

text \<open>Modelled from the spec: \<open>reduce_close_points\<close> of \<open>segmentation.descriptors\<close>, the
  deduplication of the points closer than a distance threshold. It keeps the first point
  and, of the deduplicated rest, the points that are not closer to it than the threshold.\<close>

fun reduce_greedy :: "point list \<Rightarrow> real \<Rightarrow> point list" where
  "reduce_greedy [] thr = []"
| "reduce_greedy (p # ps) thr = p # filter (\<lambda>q. thr \<le> euclid p q) (reduce_greedy ps thr)"

text \<open>Modelled from the spec: \<open>reconstruct_ray_features_2d\<close> of
  \<open>segmentation.descriptors\<close> for four rays, cast from the centre in the directions of the
  axes. The boundary point of a ray lies at the distance of the ray from the centre.\<close>

definition axis_points :: "point \<Rightarrow> real list \<Rightarrow> real \<Rightarrow> point list" where
  "axis_points center ray shift =
     map (\<lambda>(d, (dr, dc)). (fst center + d * dr, snd center + d * dc))
       (zip ray [(0, 1), (1, 0), (0, - 1), (- 1, 0)])"

text \<open>Modelled from the spec: collaborators on which the boundary point functions can be
  run. The boundary is two pixels away from every centre in each of the four directions,
  for the background and for the foreground, and the morphological operations leave the
  image as it is.\<close>

definition axis_fts :: seg_fts where
  "axis_fts =
     \<lparr>binary_fill_holes = (\<lambda>img. img),
      opening_disk = (\<lambda>img sel. img),
      compute_ray_features_segm_2d = (\<lambda>img center e. [2, 2, 2, 2]),
      reconstruct_ray_features_2d = axis_points,
      reduce_close_points = reduce_greedy\<rparr>"

section \<open>segment_image\<close>

text \<open>
  The function reads an image, writes files and logs. Its effects are the list of events
  that it returns with its result, in the order in which they happen; an exception ends the
  list. The functions of the other modules, the classifier and the file system are
  parameters: the record \<open>classifier\<close> is the object \<open>classif\<close> and the record
  \<open>environment\<close> holds the collaborators. A call of the graph cut solver is an event of
  its own, so that the trace shows whether the refinement ran. The log messages are kept
  as template and argument; \<open>CHR 0x22\<close> is the double quote.
\<close>

datatype 'img event =
    LogDebug string string
  | LogWarning string string
  | SaveImage string "int list list"
  | SaveNpz string "real list list list"
  | SaveFigure string 'img "int list list"
  | SaveMap string "int list list"
  | SaveUnary string "real list list"
  | GraphCut

text \<open>\<open>gc_regul\<close> is the scalar of the parameters or, with \<open>gc_use_trans\<close>, the scalar
  times the matrix of label penalties.\<close>

datatype regul = Scalar real | PerLabel "real list list"

record seg_params =
  img_type :: string
  slic_size :: int
  slic_regul :: real
  clr_space :: "string option"
  features :: "(string \<times> string list) list"
  gc_regul :: real
  gc_use_trans :: bool
  label_transitions :: "real list list"
  gc_edge_type :: string

record classifier =
  predict :: "real list list \<Rightarrow> int list"
  predict_proba :: "real list list \<Rightarrow> error + real list list"
  classes :: "int list"
  repr :: string

record 'img environment =
  parse_imgs_idx_path :: "int \<times> string \<Rightarrow> int \<times> string"
  get_idx_name :: "int \<Rightarrow> string \<Rightarrow> string"
  load_image :: "string \<Rightarrow> string \<Rightarrow> 'img"
  segment_slic_img2d :: "'img \<Rightarrow> int \<Rightarrow> real \<Rightarrow> int list list"
  convert_img_color_space :: "'img \<Rightarrow> string \<Rightarrow> 'img"
  compute_selected_features_img2d ::
    "'img \<Rightarrow> int list list \<Rightarrow> (string \<times> string list) list \<Rightarrow> real list list"
  compute_pairwise_cost_from_transitions :: "real list list \<Rightarrow> real list list"
  segment_graph_cut_general ::
    "int list list \<Rightarrow> real list list \<Rightarrow> 'img \<Rightarrow> real list list \<Rightarrow> regul \<Rightarrow> string \<Rightarrow> int list"
  isdir :: "string \<Rightarrow> bool"

text \<open>\<open>os.path.join\<close> of two parts.\<close>

definition path_join :: "string \<Rightarrow> string \<Rightarrow> string" where
  "path_join a b =
     (if b \<noteq> [] \<and> hd b = CHR ''/'' then b
      else if a = [] \<or> last a = CHR ''/'' then a @ b
      else a @ ''/'' @ b)"

text \<open>\<open>arr[slic]\<close>: every entry of the two-dimensional index array selects an entry (a row)
  of \<open>arr\<close>.\<close>

definition take2d :: "'a list \<Rightarrow> int list list \<Rightarrow> error + 'a list list" where
  "take2d arr idx = collect (map (\<lambda>row. collect (map (np_index arr) row)) idx)"

text \<open>\<open>x.astype(np.uint8)\<close>.\<close>

definition as_uint8 :: "int list list \<Rightarrow> int list list" where
  "as_uint8 x = map (map (\<lambda>v. v mod 256)) x"

text \<open>\<open>export_draw_image_segm_contour\<close>.\<close>

definition export_draw_image_segm_contour ::
  "'img \<Rightarrow> int list list \<Rightarrow> string \<Rightarrow> string \<Rightarrow> string \<Rightarrow> 'img event list" where
  "export_draw_image_segm_contour img segm path_out name posix =
     [LogDebug ''export draw image segmentation countours'' [],
      SaveFigure (path_join path_out (name @ posix @ ''.png'')) img segm]"

text \<open>\<open>path_visu is not None and os.path.isdir(path_visu)\<close>.\<close>

definition visu_dir :: "'img environment \<Rightarrow> string option \<Rightarrow> bool" where
  "visu_dir env path_visu = (case path_visu of None \<Rightarrow> False | Some pv \<Rightarrow> isdir env pv)"

text \<open>The statements up to the \<open>try\<close>: the hard-label segmentation \<open>labels[slic]\<close> and its
  export.\<close>

definition hard_segmentation ::
  "'img environment \<Rightarrow> seg_params \<Rightarrow> classifier \<Rightarrow> int \<times> string \<Rightarrow> string \<Rightarrow> string option
   \<Rightarrow> 'img event list
      \<times> (error + (string \<times> 'img \<times> int list list \<times> real list list \<times> int list list))" where
  "hard_segmentation env params classif imgs_idx_path path_out path_visu =
     (case parse_imgs_idx_path env imgs_idx_path of
        (idx, path_img) \<Rightarrow>
          (let ev1 = [LogDebug (''segmenting image: '' @ [CHR 0x22] @ ''%s'' @ [CHR 0x22]) path_img];
               idx_name = get_idx_name env idx path_img;
               img0 = load_image env path_img (img_type params);
               slic = segment_slic_img2d env img0 (slic_size params) (slic_regul params);
               img = convert_img_color_space env img0
                       (case clr_space params of None \<Rightarrow> ''rgb'' | Some s \<Rightarrow> s);
               fts = compute_selected_features_img2d env img slic (features params);
               labels = predict classif fts
           in (case take2d labels slic of
                 Inl e \<Rightarrow> (ev1, Inl e)
               | Inr segm \<Rightarrow>
                   (let path_png = path_join path_out (idx_name @ ''.png'');
                        ev2 = [LogDebug ''export segmentation: %s'' path_png,
                               SaveImage path_png (as_uint8 segm)];
                        ev3 = (if visu_dir env path_visu
                               then export_draw_image_segm_contour img segm
                                      (the path_visu) idx_name []
                               else [])
                    in (ev1 @ ev2 @ ev3, Inr (idx_name, img, slic, fts, segm))))))"

text \<open>The \<open>try\<close> block: an exception of \<open>predict_proba\<close> or of \<open>proba[slic]\<close> is caught, a
  warning is logged and \<open>proba\<close> is \<open>None\<close>.\<close>

definition soft_segmentation ::
  "classifier \<Rightarrow> string \<Rightarrow> string \<Rightarrow> int list list \<Rightarrow> real list list
   \<Rightarrow> 'img event list \<times> (real list list \<times> real list list list) option" where
  "soft_segmentation classif path_out idx_name slic fts =
     (let warning = [LogWarning ''classif: %s not support predict_proba(.)'' (repr classif)]
      in (case predict_proba classif fts of
            Inl e \<Rightarrow> (warning, None)
          | Inr proba \<Rightarrow>
              (case take2d proba slic of
                 Inl e \<Rightarrow> (warning, None)
               | Inr segm_soft \<Rightarrow>
                   ([SaveNpz (path_join path_out (idx_name @ ''.npz'')) segm_soft],
                    Some (proba, segm_soft)))))"

text \<open>The decimal digits of \<open>'%i' % n\<close> for a natural number.\<close>

fun decimal :: "nat \<Rightarrow> string" where
  "decimal n =
     (if n < 10 then [char_of (48 + n)] else decimal (n div 10) @ [char_of (48 + n mod 10)])"

text \<open>\<open>np.argmax(proba, axis=1)\<close>: the first index of the largest value of each row.\<close>

definition argmax_rows :: "real list list \<Rightarrow> error + int list" where
  "argmax_rows proba =
     collect (map (\<lambda>row. if row = [] then Inl ValueError
                          else Inr (int (length (takeWhile (\<lambda>x. x \<noteq> Max (set row)) row))))
                proba)"

text \<open>The debug images of the branch \<open>show_debug_imgs\<close>.\<close>

definition debug_images ::
  "string \<Rightarrow> string \<Rightarrow> int list list \<Rightarrow> real list list \<Rightarrow> real list list list
   \<Rightarrow> 'img event list \<times> (error + unit)" where
  "debug_images pv idx_name slic proba segm_soft =
     (case argmax_rows proba of
        Inl e \<Rightarrow> ([], Inl e)
      | Inr labels_map \<Rightarrow>
          (case take2d labels_map slic of
             Inl e \<Rightarrow> ([], Inl e)
           | Inr lm \<Rightarrow>
               ([SaveMap (path_join pv (idx_name @ ''_map.png'')) lm]
                @ map (\<lambda>lb. SaveUnary (path_join pv (idx_name @ ''_gc_unary-lb'' @ decimal lb
                                          @ ''.png''))
                               (map (map (\<lambda>v. v ! lb)) segm_soft))
                    [0..<(case proba of [] \<Rightarrow> 0 | row # rows \<Rightarrow> length row)],
                Inr ())))"

text \<open>The branch of the graph cut refinement.\<close>

definition graph_cut_segmentation ::
  "'img environment \<Rightarrow> seg_params \<Rightarrow> classifier \<Rightarrow> string \<Rightarrow> string option \<Rightarrow> bool
   \<Rightarrow> string \<Rightarrow> 'img \<Rightarrow> int list list \<Rightarrow> real list list \<Rightarrow> real list list
   \<Rightarrow> real list list list \<Rightarrow> 'img event list \<times> (error + int list list)" where
  "graph_cut_segmentation env params classif path_out path_visu show_debug_imgs
      idx_name img slic fts proba segm_soft =
     (let regul = (if gc_use_trans params
                   then PerLabel (map (map (\<lambda>x. gc_regul params * x))
                          (compute_pairwise_cost_from_transitions env
                             (label_transitions params)))
                   else Scalar (gc_regul params));
          labels_gc = segment_graph_cut_general env slic proba img fts regul
                        (gc_edge_type params)
      in (case take2d labels_gc slic of
            Inl e \<Rightarrow> ([GraphCut], Inl e)
          | Inr segm_gc0 \<Rightarrow>
              (case take2d (classes classif) segm_gc0 of
                 Inl e \<Rightarrow> ([GraphCut], Inl e)
               | Inr segm_gc \<Rightarrow>
                   (let path_png = path_join path_out (idx_name @ ''_gc.png'');
                        ev1 = [GraphCut, LogDebug ''export segmentation: %s'' path_png,
                               SaveImage path_png (as_uint8 segm_gc)]
                    in if visu_dir env path_visu then
                         (let ev2 = export_draw_image_segm_contour img segm_gc
                                      (the path_visu) idx_name ''_gc''
                          in if show_debug_imgs then
                               (case debug_images (the path_visu) idx_name slic proba
                                       segm_soft of
                                  (ev3, Inl e) \<Rightarrow> (ev1 @ ev2 @ ev3, Inl e)
                                | (ev3, Inr u) \<Rightarrow> (ev1 @ ev2 @ ev3, Inr segm_gc))
                             else (ev1 @ ev2, Inr segm_gc))
                       else (ev1, Inr segm_gc)))))"

definition segment_image ::
  "'img environment \<Rightarrow> seg_params \<Rightarrow> classifier \<Rightarrow> int \<times> string \<Rightarrow> string \<Rightarrow> string option
   \<Rightarrow> bool \<Rightarrow> 'img event list \<times> (error + (string \<times> int list list \<times> int list list))" where
  "segment_image env params classif imgs_idx_path path_out path_visu show_debug_imgs =
     (case hard_segmentation env params classif imgs_idx_path path_out path_visu of
        (ev1, Inl e) \<Rightarrow> (ev1, Inl e)
      | (ev1, Inr (idx_name, img, slic, fts, segm)) \<Rightarrow>
          (case soft_segmentation classif path_out idx_name slic fts of
             (ev2, Some (proba, segm_soft)) \<Rightarrow>
               if 0 < gc_regul params then
                 (case graph_cut_segmentation env params classif path_out path_visu
                         show_debug_imgs idx_name img slic fts proba segm_soft of
                    (ev3, Inl e) \<Rightarrow> (ev1 @ ev2 @ ev3, Inl e)
                  | (ev3, Inr segm_gc) \<Rightarrow> (ev1 @ ev2 @ ev3, Inr (idx_name, segm, segm_gc)))
               else (ev1 @ ev2, Inr (idx_name, segm, map (map (\<lambda>v. 0)) segm))
           | (ev2, None) \<Rightarrow> (ev1 @ ev2, Inr (idx_name, segm, map (map (\<lambda>v. 0)) segm))))"

text \<open>An environment and a classifier without probabilities, for a run of the function:
  two superpixels in an image of one row, the labels 5 and 7.\<close>

definition env0 :: "unit environment" where
  "env0 =
     \<lparr>parse_imgs_idx_path = (\<lambda>p. p),
      get_idx_name = (\<lambda>idx path. ''img''),
      load_image = (\<lambda>path t. ()),
      segment_slic_img2d = (\<lambda>img sz rg. [[0, 1]]),
      convert_img_color_space = (\<lambda>img s. img),
      compute_selected_features_img2d = (\<lambda>img slic spec. [[1], [2]]),
      compute_pairwise_cost_from_transitions = (\<lambda>t. t),
      segment_graph_cut_general = (\<lambda>slic proba img fts rg et. [0, 0]),
      isdir = (\<lambda>p. False)\<rparr>"

definition params0 :: seg_params where
  "params0 =
     \<lparr>img_type = ''2d_rgb'', slic_size = 35, slic_regul = 1 / 5, clr_space = None,
      features = [(''color'', [''mean''])], gc_regul = 1, gc_use_trans = False,
      label_transitions = [], gc_edge_type = ''model''\<rparr>"

definition classif0 :: classifier where
  "classif0 =
     \<lparr>predict = (\<lambda>fts. [5, 7]), predict_proba = (\<lambda>fts. Inl AttributeError),
      classes = [5, 7], repr = ''LinearSVC()''\<rparr>"

chapter \<open>Their properties\<close>

section \<open>Properties: EllipseModelSegm.criterion\<close>

lemma select_mask_nth:
  "length xs = length bs \<Longrightarrow>
   select_mask xs bs = map ((!) xs) (filter ((!) bs) [0..<length xs])"
proof (induction xs bs rule: list_induct2)
  case Nil
  then show ?case by (simp add: select_mask_def)
next
  case (Cons x xs b bs)
  have "[0..<length (x # xs)] = 0 # map Suc [0..<length xs]"
    by (simp add: upt_conv_Cons map_Suc_upt del: upt_Suc)
  then show ?case using Cons
    by (simp add: select_mask_def filter_map comp_def del: upt_Suc)
qed

lemma collect_map_Inr:
  "(\<forall>x \<in> set xs. g x = Inr (h x)) \<Longrightarrow> collect (map g xs) = Inr (map h xs)"
  by (induction xs) simp_all

lemma np_index_nat: "0 \<le> i \<Longrightarrow> i < int (length xs) \<Longrightarrow> np_index xs i = Inr (xs ! nat i)"
  by (simp add: np_index_def)

text \<open>
  Claim C2, as amended. For arrays of equal, non-zero length and a table of two rows of
  positive entries whose columns cover the labels, \<open>criterion\<close> returns the sum, over the
  points inside the ellipse, of the weight of the point times
  \<open>cost(row 0, label of the point) - cost(row 1, label of the point)\<close>, where
  \<open>cost(row, label) = -log(table[row][label])\<close>; points outside contribute nothing. The
  statement is about the inputs on which the weight stored at the index of a point's label
  is the weight of that point.
\<close>

theorem criterion_sum_inside:
  assumes "length points = length weights" and "length weights = length labels"
    and "labels \<noteq> []"
    and "table_p = [row0, row1]" and "length row0 = length row1"
    and "\<forall>p \<in> set row0 \<union> set row1. 0 < p"
    and "\<forall>lb \<in> set labels. 0 \<le> lb \<and> lb < int (length row0)"
    and "\<forall>i \<in> set (inside_idx prm points). np_index weights (labels ! i) = Inr (weights ! i)"
  shows "criterion prm points weights labels table_p =
           Inr (sum_list (map (\<lambda>i. weights ! i *
                    (cost table_p 0 (nat (labels ! i)) - cost table_p 1 (nat (labels ! i))))
                  (inside_idx prm points)))"
proof -
  let ?tq = "map (map (\<lambda>p. - ln p)) table_p"
  let ?h = "\<lambda>i. weights ! i *
           (cost table_p 0 (nat (labels ! i)) - cost table_p 1 (nat (labels ! i)))"
  have mx: "Max (set labels) < int (length row0)"
    using assms(3,7) by simp
  have sel: "select_mask labels (map (inside prm) points)
      = map ((!) labels) (inside_idx prm points)"
  proof -
    have "length labels = length (map (inside prm) points)" using assms(1,2) by simp
    from select_mask_nth[OF this]
    have "select_mask labels (map (inside prm) points)
      = map ((!) labels) (filter ((!) (map (inside prm) points)) [0..<length labels])" .
    also have "filter ((!) (map (inside prm) points)) [0..<length labels]
      = inside_idx prm points"
      unfolding inside_idx_def using assms(1,2)
      by (intro filter_cong) auto
    finally show ?thesis .
  qed
  have tm: "residual_term weights ?tq (labels ! i) = Inr (?h i)"
    if i: "i \<in> set (inside_idx prm points)" for i
  proof -
    from i have "i < length labels" using assms(1,2) by (simp add: inside_idx_def)
    then have "labels ! i \<in> set labels" by simp
    with assms(7) have lb: "0 \<le> labels ! i" "labels ! i < int (length row0)" by auto
    then have n: "nat (labels ! i) < length row0" by simp
    have q0: "np_index (?tq ! 0) (labels ! i) = Inr (cost table_p 0 (nat (labels ! i)))"
      using lb n by (simp add: assms(4) np_index_nat cost_def)
    have q1: "np_index (?tq ! 1) (labels ! i) = Inr (cost table_p 1 (nat (labels ! i)))"
      using lb n assms(5) by (simp add: assms(4) np_index_nat cost_def)
    from assms(8) i have w: "np_index weights (labels ! i) = Inr (weights ! i)" by blast
    show ?thesis unfolding residual_term_def w q0 q1 by simp
  qed
  have "collect (map (residual_term weights ?tq) (map ((!) labels) (inside_idx prm points)))
      = Inr (map ?h (inside_idx prm points))"
    unfolding map_map comp_def using tm by (intro collect_map_Inr) blast
  then show ?thesis
    using assms(1,2,3,5) mx
    by (simp add: criterion_def sel assms(4) Let_def)
qed

lemma inside_unit_circle:
  "inside unit_circle (0, 0)" "\<not> inside unit_circle (5, 5)"
  by (simp_all add: inside_def unit_circle_def)

lemma inside_idx_two:
  "inside_idx unit_circle [(0, 0), (5, 5)] = [0]"
  by (simp add: inside_idx_def inside_unit_circle upt_rec)

text \<open>Two points of weight 3, the first one inside the unit circle, labels 0 and 1.\<close>

theorem criterion_sum_inside_witness:
  "criterion unit_circle [(0, 0), (5, 5)] [3, 3] [0, 1] default_table
     = Inr (3 * (cost default_table 0 0 - cost default_table 1 0))"
proof -
  have "criterion unit_circle [(0, 0), (5, 5)] [3, 3] [0, 1] default_table =
           Inr (sum_list (map (\<lambda>i. [3, 3] ! i *
                    (cost default_table 0 (nat ([0, 1] ! i))
                      - cost default_table 1 (nat ([0, 1] ! i))))
                  (inside_idx unit_circle [(0, 0), (5, 5)])))"
    by (rule criterion_sum_inside[where ?row0.0 = "[1 / 10, 9 / 10]"
          and ?row1.0 = "[9 / 10, 1 / 10]"])
       (simp_all add: default_table_def inside_idx_two np_index_def)
  then show ?thesis by (simp add: inside_idx_two)
qed

text \<open>Claim C2 as stated fails: with unit weights and the default table, one inside point
  of label 0 gives \<open>cost(row 0, label 0) - cost(row 1, label 0)\<close>, not the difference of the
  entries of the inside row at the classes 0 and 1. And on empty arrays \<open>np.max(labels)\<close>
  raises ValueError.\<close>

theorem criterion_not_spec_formula:
  "criterion unit_circle [(0, 0), (5, 5)] [1, 1] [0, 1] default_table
     = Inr (ln (9 / 10) - ln (1 / 10))
   \<and> criterion_spec unit_circle [(0, 0), (5, 5)] [1, 1] [0, 1] default_table
     = ln (1 / 10) - ln (9 / 10)
   \<and> ln (9 / 10) - ln (1 / 10) \<noteq> ln (1 / 10) - ln (9 / 10 :: real)
   \<and> criterion unit_circle [] [] [] default_table = Inl ValueError"
proof -
  have "ln (1 / 10 :: real) < ln (9 / 10)"
    by (subst ln_less_cancel_iff) simp_all
  then have ne: "ln (9 / 10) - ln (1 / 10) \<noteq> ln (1 / 10) - ln (9 / 10 :: real)" by simp
  have c: "criterion unit_circle [(0, 0), (5, 5)] [1, 1] [0, 1] default_table
     = Inr (ln (9 / 10) - ln (1 / 10))"
    unfolding criterion_def default_table_def
    by (simp add: select_mask_def inside_unit_circle residual_term_def np_index_def)
  have s: "criterion_spec unit_circle [(0, 0), (5, 5)] [1, 1] [0, 1] default_table
     = ln (1 / 10) - ln (9 / 10)"
    unfolding criterion_spec_def inside_idx_two cost_def default_table_def
    by simp
  have e: "criterion unit_circle [] [] [] default_table = Inl ValueError"
    by (simp add: criterion_def default_table_def)
  from c s ne e show ?thesis by blast
qed

text \<open>The weight array is indexed by the label: the inside point has weight 1 and label
  1, and the summand carries the weight 7 of the other point. With a label beyond the length
  of the weight array the lookup raises IndexError.\<close>

lemma criterion_weight_of_label:
  "criterion unit_circle [(0, 0), (5, 5)] [1, 7] [1, 0] [[1, 1 / 2], [1, 1]]
     = Inr (7 * (- ln (1 / 2)))"
  unfolding criterion_def
  by (simp add: select_mask_def inside_unit_circle residual_term_def np_index_def)

lemma criterion_index_error:
  "criterion unit_circle [(0, 0)] [1] [3] [[1, 1, 1, 1], [1, 1, 1, 1]] = Inl IndexError"
  unfolding criterion_def
  by (simp add: select_mask_def inside_unit_circle residual_term_def np_index_def)

section \<open>Properties: ransac_segm\<close>

lemma ransac_trial_outcome:
  "points \<noteq> [] \<Longrightarrow>
   ransac_trial mc rnd points pa w l tp k thr t st =
     (case trial mc rnd points pa w l tp k thr t of
        Degenerate \<Rightarrow> Inr st
      | Raised e \<Rightarrow> Inl e
      | Fitted m i f \<Rightarrow> Inr (accept m i f st))"
  by (simp add: ransac_trial_def trial_def draw_samples_def Let_def
      split: prod.splits sum.splits)

lemma ransac_loop_run_outs:
  "points \<noteq> [] \<Longrightarrow>
   ransac_loop (ransac_trial mc rnd points pa w l tp k thr) ts st =
     run_outs (map (trial mc rnd points pa w l tp k thr) ts) st"
proof (induction ts arbitrary: st)
  case Nil
  then show ?case by simp
next
  case (Cons t ts)
  then show ?case
    by (cases "trial mc rnd points pa w l tp k thr t")
       (simp_all add: ransac_trial_outcome)
qed

lemma ransac_loop_no_points:
  "ransac_loop (ransac_trial mc rnd [] pa w l tp k thr) ts st =
     (if ts = [] then Inr st else Inl ValueError)"
  by (cases ts) (simp_all add: ransac_trial_def draw_samples_def)

lemma run_outs_append:
  "run_outs (xs @ ys) st =
     (case run_outs xs st of Inl e \<Rightarrow> Inl e | Inr st' \<Rightarrow> run_outs ys st')"
  by (induction xs st rule: run_outs.induct) simp_all

lemma run_outs_snoc:
  "run_outs (xs @ [x]) st = Inr st' \<Longrightarrow>
   \<exists>st0. run_outs xs st = Inr st0 \<and>
     (case x of Degenerate \<Rightarrow> st' = st0 | Raised e \<Rightarrow> False
      | Fitted m i f \<Rightarrow> st' = accept m i f st0)"
  by (cases x) (auto simp: run_outs_append split: sum.splits)

lemma fits_append: "fits (xs @ ys) = fits xs @ fits ys"
  by (simp add: fits_def)

lemma fits_simps [simp]:
  "fits [] = []"
  "fits (Degenerate # xs) = fits xs"
  "fits (Raised e # xs) = fits xs"
  "fits (Fitted m i f # xs) = f # fits xs"
  by (simp_all add: fits_def)

lemma fits_mem: "f \<in> set (fits outs) \<longleftrightarrow> (\<exists>m i. Fitted m i f \<in> set outs)"
proof (induction outs)
  case Nil
  then show ?case by simp
next
  case (Cons x xs)
  then show ?case by (cases x) auto
qed

lemma run_outs_no_raise:
  "run_outs outs st = Inr st' \<Longrightarrow> Raised e \<notin> set outs"
  by (induction outs st rule: run_outs.induct) auto

lemma fits_empty_iff:
  "fits outs = [] \<longleftrightarrow> (\<forall>out \<in> set outs. \<forall>m i f. out \<noteq> Fitted m i f)"
proof (induction outs)
  case Nil
  then show ?case by simp
next
  case (Cons x xs)
  then show ?case by (cases x) auto
qed

lemma inv_model_init: "inv_model [] init_state"
  by (simp add: inv_model_def init_state_def)

lemma inv_inliers_init: "inv_inliers [] init_state"
  by (simp add: inv_inliers_def init_state_def improving_def)

lemma fit_less_iff:
  assumes "inv_model outs st"
  shows "fit_less f (best_model_fit st) \<longleftrightarrow> (\<forall>f' \<in> set (fits outs). f < f')"
proof (cases "best_model st")
  case None
  with assms show ?thesis by (simp add: inv_model_def fit_less_def)
next
  case (Some m)
  with assms obtain j i b where j: "j < length outs" "outs ! j = Fitted m i b"
    "best_model_fit st = Some b" "\<forall>f' \<in> set (fits outs). b \<le> f'"
    unfolding inv_model_def by blast
  from j(1,2) have "Fitted m i b \<in> set outs" by (metis nth_mem)
  then have "b \<in> set (fits outs)" by (auto simp: fits_mem)
  with j(3,4) show ?thesis by (fastforce simp: fit_less_def)
qed

lemma inv_model_degenerate:
  assumes inv: "inv_model outs st"
  shows "inv_model (outs @ [Degenerate]) st"
proof (cases "best_model st")
  case None
  with inv show ?thesis by (auto simp: inv_model_def fits_append)
next
  case (Some m0)
  with inv obtain j i0 b where j: "j < length outs" "outs ! j = Fitted m0 i0 b"
    "best_model_fit st = Some b"
    "\<forall>f' \<in> set (fits outs). b \<le> f'" "\<forall>f' \<in> set (fits (take j outs)). b < f'"
    unfolding inv_model_def by blast
  have "j < length (outs @ [Degenerate])" "(outs @ [Degenerate]) ! j = Fitted m0 i0 b"
    "\<forall>f' \<in> set (fits (outs @ [Degenerate])). b \<le> f'"
    "\<forall>f' \<in> set (fits (take j (outs @ [Degenerate]))). b < f'"
    using j by (auto simp: fits_append nth_append)
  then show ?thesis unfolding inv_model_def using Some j(3) by auto
qed

lemma inv_model_accept:
  assumes "inv_model outs st"
  shows "inv_model (outs @ [Fitted m i f]) (accept m i f st)"
proof (cases "fit_less f (best_model_fit st)")
  case True
  then have lt: "\<forall>f' \<in> set (fits outs). f < f'" using fit_less_iff[OF assms] by simp
  have bm: "best_model (accept m i f st) = Some m"
    and bf: "best_model_fit (accept m i f st) = Some f"
    using True by (simp_all add: accept_def Let_def)
  have "length outs < length (outs @ [Fitted m i f])"
    "(outs @ [Fitted m i f]) ! length outs = Fitted m i f"
    "\<forall>f' \<in> set (fits (outs @ [Fitted m i f])). f \<le> f'"
    "\<forall>f' \<in> set (fits (take (length outs) (outs @ [Fitted m i f]))). f < f'"
    using lt by (auto simp: fits_append)
  then show ?thesis unfolding inv_model_def bm bf by blast
next
  case False
  then have st: "accept m i f st = st" by (simp add: accept_def)
  from False obtain b where b: "best_model_fit st = Some b" "b \<le> f"
    by (auto simp: fit_less_def split: option.splits)
  with assms obtain m0 where m0: "best_model st = Some m0"
    unfolding inv_model_def by (cases "best_model st") auto
  with assms b obtain j i0 where j: "j < length outs" "outs ! j = Fitted m0 i0 b"
    "\<forall>f' \<in> set (fits outs). b \<le> f'" "\<forall>f' \<in> set (fits (take j outs)). b < f'"
    unfolding inv_model_def by fastforce
  have "j < length (outs @ [Fitted m i f])" "(outs @ [Fitted m i f]) ! j = Fitted m0 i0 b"
    "\<forall>f' \<in> set (fits (outs @ [Fitted m i f])). b \<le> f'"
    "\<forall>f' \<in> set (fits (take j (outs @ [Fitted m i f]))). b < f'"
    using j b by (auto simp: fits_append nth_append)
  then show ?thesis unfolding inv_model_def st using m0 b(1) by auto
qed

lemma improving_append:
  "s < length outs \<Longrightarrow> improving (outs @ ys) s = improving outs s"
  by (cases "outs ! s") (simp_all add: improving_def nth_append)

lemma improving_less: "improving outs t \<Longrightarrow> t < length outs"
  by (simp add: improving_def)

lemma improving_last:
  "improving (outs @ [Fitted m i f]) (length outs) \<longleftrightarrow> (\<forall>f' \<in> set (fits outs). f < f')"
  by (simp add: improving_def)

lemma improving_snoc:
  "improving (outs @ [x]) t \<longleftrightarrow>
     improving outs t \<or> (t = length outs \<and> improving (outs @ [x]) (length outs))"
proof (cases "t < length outs")
  case True
  then show ?thesis by (simp add: improving_append)
next
  case False
  then have "\<not> improving outs t" by (auto dest: improving_less)
  moreover have "improving (outs @ [x]) t \<Longrightarrow> t = length outs"
    using False by (auto dest: improving_less)
  ultimately show ?thesis by blast
qed

lemma inv_inliers_degenerate:
  assumes "inv_inliers outs st"
  shows "inv_inliers (outs @ [Degenerate]) st"
proof -
  have "\<not> improving (outs @ [Degenerate]) (length outs)"
    by (simp add: improving_def)
  then have eq: "improving (outs @ [Degenerate]) t = improving outs t" for t
    using improving_snoc[of outs Degenerate t] by blast
  have nth: "improving outs t \<Longrightarrow> (outs @ [Degenerate]) ! t = outs ! t" for t
    by (simp add: improving_def nth_append)
  show ?thesis using assms unfolding inv_inliers_def eq
    by (metis nth)
qed

lemma inv_inliers_accept:
  assumes im: "inv_model outs st" and ii: "inv_inliers outs st"
  shows "inv_inliers (outs @ [Fitted m i f]) (accept m i f st)"
proof -
  let ?outs = "outs @ [Fitted m i f]"
  let ?n = "length (filter id i)"
  have last: "improving ?outs (length outs) \<longleftrightarrow> fit_less f (best_model_fit st)"
    by (simp add: improving_last fit_less_iff[OF im])
  have nth: "improving outs t \<Longrightarrow> ?outs ! t = outs ! t" for t
    by (simp add: improving_def nth_append)
  have num_last: "inlier_num (?outs ! length outs) = ?n"
    by (simp add: inlier_num_def)
  show ?thesis
  proof (cases "fit_less f (best_model_fit st)")
    case False
    then have st: "accept m i f st = st" by (simp add: accept_def)
    from False last have eq: "improving ?outs t = improving outs t" for t
      using improving_snoc[of outs "Fitted m i f" t] by blast
    show ?thesis using ii unfolding inv_inliers_def eq st
      by (metis nth)
  next
    case True
    note fl = True
    show ?thesis
    proof (cases "?n > best_inlier_num st")
      case False
      then have bi: "best_inliers (accept m i f st) = best_inliers st"
        and bn: "best_inlier_num (accept m i f st) = best_inlier_num st"
        and bm: "best_model (accept m i f st) = Some m"
        using fl by (simp_all add: accept_def Let_def)
      have k1: "\<forall>t. improving ?outs t \<longrightarrow> inlier_num (?outs ! t) \<le> best_inlier_num st"
      proof (intro allI impI)
        fix t assume "improving ?outs t"
        then consider "improving outs t" | "t = length outs"
          using improving_snoc[of outs "Fitted m i f" t] by blast
        then show "inlier_num (?outs ! t) \<le> best_inlier_num st"
        proof cases
          case 1
          then show ?thesis using ii nth[OF 1] by (simp add: inv_inliers_def)
        next
          case 2
          then show ?thesis using False num_last by simp
        qed
      qed
      have k4: "0 < best_inlier_num st \<and>
           (\<exists>t m' f'. improving ?outs t \<and> ?outs ! t = Fitted m' msk f' \<and>
              length (filter id msk) = best_inlier_num st \<and>
              (\<forall>s<t. improving ?outs s \<longrightarrow> inlier_num (?outs ! s) < best_inlier_num st))"
        if "best_inliers st = Some msk" for msk
      proof -
        from ii that obtain t m' f' where t: "0 < best_inlier_num st" "improving outs t"
          "outs ! t = Fitted m' msk f'" "length (filter id msk) = best_inlier_num st"
          "\<forall>s<t. improving outs s \<longrightarrow> inlier_num (outs ! s) < best_inlier_num st"
          unfolding inv_inliers_def by blast
        have tl: "t < length outs" using t(2) by (rule improving_less)
        have "improving ?outs t" using t(2) tl by (simp add: improving_append)
        moreover have "?outs ! t = Fitted m' msk f'" using t(3) tl by (simp add: nth_append)
        moreover have "\<forall>s<t. improving ?outs s \<longrightarrow> inlier_num (?outs ! s) < best_inlier_num st"
          using t(5) tl by (simp add: improving_append nth_append)
        ultimately show ?thesis using t(1,4) by blast
      qed
      show ?thesis unfolding inv_inliers_def bi bn bm
        using k1 k4 ii by (auto simp: inv_inliers_def)
    next
      case True
      then have bi: "best_inliers (accept m i f st) = Some i"
        and bn: "best_inlier_num (accept m i f st) = ?n"
        and bm: "best_model (accept m i f st) = Some m"
        using fl by (simp_all add: accept_def Let_def)
      have old: "inlier_num (?outs ! t) < ?n" if "improving outs t" for t
      proof -
        have "inlier_num (outs ! t) \<le> best_inlier_num st"
          using ii that by (simp add: inv_inliers_def)
        then show ?thesis using True nth[OF that] by simp
      qed
      have k1: "\<forall>t. improving ?outs t \<longrightarrow> inlier_num (?outs ! t) \<le> ?n"
      proof (intro allI impI)
        fix t assume "improving ?outs t"
        then consider "improving outs t" | "t = length outs"
          using improving_snoc[of outs "Fitted m i f" t] by blast
        then show "inlier_num (?outs ! t) \<le> ?n"
        proof cases
          case 1
          then show ?thesis using old[OF 1] by simp
        next
          case 2
          then show ?thesis using num_last by simp
        qed
      qed
      have "improving ?outs (length outs)" using last fl by simp
      moreover have "?outs ! length outs = Fitted m i f" by simp
      moreover have "\<forall>s<length outs. improving ?outs s \<longrightarrow> inlier_num (?outs ! s) < ?n"
        using old by (simp add: improving_append)
      ultimately have k4: "\<exists>t m' f'. improving ?outs t \<and> ?outs ! t = Fitted m' i f' \<and>
              length (filter id i) = ?n \<and>
              (\<forall>s<t. improving ?outs s \<longrightarrow> inlier_num (?outs ! s) < ?n)"
        by blast
      have "0 < ?n" using True by linarith
      then show ?thesis unfolding inv_inliers_def bi bn bm
        using k1 k4 by simp
    qed
  qed
qed

lemma run_outs_inv:
  "run_outs outs init_state = Inr st \<Longrightarrow> inv_model outs st \<and> inv_inliers outs st"
proof (induction outs arbitrary: st rule: rev_induct)
  case Nil
  then show ?case by (simp add: inv_model_init inv_inliers_init)
next
  case (snoc x xs)
  from run_outs_snoc[OF snoc.prems] obtain st0 where
    st0: "run_outs xs init_state = Inr st0"
    and x: "case x of Degenerate \<Rightarrow> st = st0 | Raised e \<Rightarrow> False
      | Fitted m i f \<Rightarrow> st = accept m i f st0"
    by blast
  from snoc.IH[OF st0] have inv: "inv_model xs st0" "inv_inliers xs st0" by simp_all
  show ?case
  proof (cases x)
    case Degenerate
    with x inv show ?thesis
      by (simp add: inv_model_degenerate inv_inliers_degenerate)
  next
    case (Raised e)
    with x show ?thesis by simp
  next
    case (Fitted m i f)
    with x inv show ?thesis
      by (simp add: inv_model_accept inv_inliers_accept)
  qed
qed

lemma ransac_segm_Inr:
  assumes "ransac_segm float_mul mc rnd points pa w l tp ms thr mt = Inr (bm, bi)"
  shows "\<exists>st. run_outs (map (trial mc rnd points pa w l tp (sample_count float_mul ms points) thr)
                  [0..<nat mt]) init_state = Inr st
          \<and> bi = best_inliers st
          \<and> bm = map_option (final_estimate mc points bi) (best_model st)
          \<and> (bi \<noteq> None \<longrightarrow> best_model st \<noteq> None)"
proof -
  from assms obtain n where n: "check_min_samples float_mul ms points = Inr n" and mt: "\<not> mt < 0"
    by (auto simp: ransac_segm_def split: sum.splits if_splits)
  then have k: "sample_count float_mul ms points = nat n" by (simp add: sample_count_def)
  let ?body = "ransac_trial mc rnd points pa w l tp (nat n) thr"
  from assms n mt obtain st where st: "ransac_loop ?body [0..<nat mt] init_state = Inr st"
    by (auto simp: ransac_segm_def split: sum.splits)
  have run: "run_outs (map (trial mc rnd points pa w l tp (nat n) thr) [0..<nat mt])
               init_state = Inr st"
  proof (cases "points = []")
    case True
    with st have "[0..<nat mt] = []"
      by (simp add: ransac_loop_no_points split: if_splits)
    with st show ?thesis by simp
  next
    case False
    with st show ?thesis by (simp add: ransac_loop_run_outs)
  qed
  from assms n mt st have "bi = best_inliers st"
    "bm = map_option (final_estimate mc points bi) (best_model st)"
    "bi \<noteq> None \<longrightarrow> best_model st \<noteq> None"
    by (cases "best_model st"; auto simp: ransac_segm_def final_estimate_def
        split: option.splits)+
  with run k show ?thesis by auto
qed

text \<open>
  Claim C1, as amended. Whenever \<open>ransac_segm\<close> returns and the estimation of at least one
  trial succeeded, the model object returned is the one of the first trial that attains the
  lowest criterion value among the successful trials; the numbers of inliers of the trials
  play no part in the choice. Without an inlier mask the model is returned as that trial
  estimated it. With an inlier mask the object is estimated once more on the points of the
  mask before it is returned, and the parameters returned are those of this last estimate.
\<close>

theorem ransac_segm_lowest_criterion:
  assumes "ransac_segm float_mul mc rnd points points_all weights labels table_prob min_samples
             residual_threshold max_trials = Inr (bm, bi)"
    and "outs = map (trial mc rnd points points_all weights labels table_prob
                       (sample_count float_mul min_samples points) residual_threshold)
                  [0..<nat max_trials]"
    and "\<exists>out \<in> set outs. out \<noteq> Degenerate"
  shows "\<exists>j m i f. j < length outs \<and> outs ! j = Fitted m i f
           \<and> (\<forall>f' \<in> set (fits outs). f \<le> f')
           \<and> (\<forall>f' \<in> set (fits (take j outs)). f < f')
           \<and> (bi = None \<longrightarrow> bm = Some m)
           \<and> (\<forall>msk. bi = Some msk \<longrightarrow>
                 bm = Some (snd (mc_estimate mc m (select_mask points msk))))"
proof -
  from ransac_segm_Inr[OF assms(1)] assms(2) obtain st where
    run: "run_outs outs init_state = Inr st"
    and bm: "bm = map_option (final_estimate mc points bi) (best_model st)"
    by auto
  from run_outs_inv[OF run] have inv: "inv_model outs st" by simp
  from assms(3) obtain out where out: "out \<in> set outs" "out \<noteq> Degenerate" by blast
  with run_outs_no_raise[OF run] obtain m0 i0 f0 where "out = Fitted m0 i0 f0"
    by (cases out) auto
  with out have "fits outs \<noteq> []" by (auto simp: fits_empty_iff)
  with inv obtain m where m: "best_model st = Some m"
    unfolding inv_model_def by (cases "best_model st") auto
  with inv obtain j i f where j: "j < length outs" "outs ! j = Fitted m i f"
    "\<forall>f' \<in> set (fits outs). f \<le> f'" "\<forall>f' \<in> set (fits (take j outs)). f < f'"
    unfolding inv_model_def by blast
  have none: "bi = None \<longrightarrow> bm = Some m"
    using bm m by (simp add: final_estimate_def)
  have some: "\<forall>msk. bi = Some msk \<longrightarrow>
                 bm = Some (snd (mc_estimate mc m (select_mask points msk)))"
    using bm m by (simp add: final_estimate_def)
  from j none some show ?thesis by blast
qed

text \<open>Claim C1 as stated fails: the third trial has the lowest criterion, 4, with one
  inlier; the mask of the first trial is tracked, the final estimate on its two points gives
  the model (0, 5), and the model returned has the criterion 5.\<close>

theorem ransac_segm_returned_criterion_not_lowest:
  "ransac_segm times point_model (\<lambda>t j. t) pts3 [] [] [] [] (PyInt 1) 2 3
     = Inr (Some (0, 5), Some [True, True, False])
   \<and> mc_criterion point_model (0, 5) [] [] [] [] = Inr 5
   \<and> trial point_model (\<lambda>t j. t) pts3 [] [] [] [] 1 2 2
     = Fitted (10, 4) [False, False, True] 4
   \<and> (4 :: real) < 5"
  by (simp add: ransac_segm_def check_min_samples_def ransac_trial_def draw_samples_def
      point_model_def pts3_def upt_rec accept_def fit_less_def init_state_def
      final_estimate_def select_mask_def trial_def)

lemma sample_count_pts3b: "sample_count times (PyInt 1) pts3b = 1"
  by (simp add: sample_count_def check_min_samples_def)

lemma run_pts3b:
  "ransac_segm times point_model (\<lambda>t j. t) pts3b [] [] [] [] (PyInt 1) 2 3
     = Inr (Some (10, 4), Some [True, False, False])"
    by (simp add: ransac_segm_def check_min_samples_def ransac_trial_def draw_samples_def
        point_model_def pts3b_def upt_rec accept_def fit_less_def init_state_def
        final_estimate_def select_mask_def)

lemma outs_pts3b:
  "[Fitted (10, 4) [True, False, False] 4, Fitted (0, 5) [False, True, True] 5,
        Fitted (1, 5) [False, True, True] 5]
     = map (trial point_model (\<lambda>t j. t) pts3b [] [] [] [] (sample_count times (PyInt 1) pts3b) 2)
        [0..<nat 3]"
    unfolding sample_count_pts3b by (simp add: trial_def point_model_def pts3b_def upt_rec)

text \<open>Three trials: the first has one inlier and criterion 4, the other two have two
  inliers and criterion 5. The model of the first trial is returned, estimated once more on
  its own inlier.\<close>

theorem ransac_segm_lowest_criterion_witness:
  "ransac_segm times point_model (\<lambda>t j. t) pts3b [] [] [] [] (PyInt 1) 2 3
     = Inr (Some (10, 4), Some [True, False, False])
   \<and> map (trial point_model (\<lambda>t j. t) pts3b [] [] [] [] (sample_count times (PyInt 1) pts3b) 2)
        [0..<nat 3]
     = [Fitted (10, 4) [True, False, False] 4, Fitted (0, 5) [False, True, True] 5,
        Fitted (1, 5) [False, True, True] 5]
   \<and> (\<exists>j m i f. j < 3
        \<and> [Fitted (10, 4) [True, False, False] 4, Fitted (0, 5) [False, True, True] 5,
             Fitted (1, 5) [False, True, True] 5] ! j = Fitted m i f
        \<and> (\<forall>f' \<in> set [4, 5, 5]. f \<le> f')
        \<and> Some (10, 4)
            = Some (snd (mc_estimate point_model m (select_mask pts3b [True, False, False]))))"
proof -
  let ?outs = "[Fitted (10, 4) [True, False, False] 4,
      Fitted (0::real, 5::real) [False, True, True] 5, Fitted (1, 5) [False, True, True] 5]"
  have ex: "\<exists>out \<in> set ?outs. out \<noteq> Degenerate"
    by simp
  have "\<exists>j m i f. j < 3 \<and> ?outs ! j = Fitted m i f
        \<and> (\<forall>f' \<in> set [4, 5, 5]. f \<le> f')
        \<and> Some (10, 4)
            = Some (snd (mc_estimate point_model m (select_mask pts3b [True, False, False])))"
  proof -
    from ransac_segm_lowest_criterion[OF run_pts3b outs_pts3b ex] obtain j m i f where
      h: "j < length ?outs" "?outs ! j = Fitted m i f"
      "\<forall>f' \<in> set (fits ?outs). f \<le> f'"
      "\<forall>msk. Some [True, False, False] = Some msk \<longrightarrow>
         Some (10, 4) = Some (snd (mc_estimate point_model m (select_mask pts3b msk)))"
      by (elim exE conjE)
    from h(1) have "j < 3" by simp
    moreover from h(3) have "\<forall>f' \<in> set [4, 5, 5]. f \<le> f'" by simp
    moreover from h(4) have "Some (10, 4)
        = Some (snd (mc_estimate point_model m (select_mask pts3b [True, False, False])))"
      by simp
    ultimately show ?thesis using h(2) by blast
  qed
  with run_pts3b outs_pts3b[symmetric] show ?thesis by simp
qed

text \<open>
  Claim C3, as amended. With valid parameters and a non-empty point array (or no trial at
  all), \<open>ransac_segm\<close> returns \<open>(None, None)\<close> normally when no trial succeeded. Whenever it
  returns, the model is \<open>None\<close> exactly when no trial succeeded; the inlier mask is not \<open>None\<close>
  exactly when some criterion-improving trial has at least one inlier, so a returned model
  can come with the mask \<open>None\<close>.
\<close>

theorem ransac_segm_none_iff:
  assumes "outs = map (trial mc rnd points points_all weights labels table_prob
                       (sample_count float_mul min_samples points) residual_threshold)
                  [0..<nat max_trials]"
  shows "(check_min_samples float_mul min_samples points \<noteq> Inl ValueError \<and> 0 \<le> max_trials
            \<and> (points \<noteq> [] \<or> max_trials = 0) \<and> (\<forall>out \<in> set outs. out = Degenerate)
          \<longrightarrow> ransac_segm float_mul mc rnd points points_all weights labels table_prob min_samples
                residual_threshold max_trials = Inr (None, None))
       \<and> (ransac_segm float_mul mc rnd points points_all weights labels table_prob min_samples
                residual_threshold max_trials = Inr (bm, bi)
          \<longrightarrow> (bm = None \<longleftrightarrow> (\<forall>out \<in> set outs. out = Degenerate))
              \<and> (bi \<noteq> None \<longleftrightarrow> (\<exists>t. improving outs t \<and> 0 < inlier_num (outs ! t)))
              \<and> (bm = None \<longrightarrow> bi = None))"
proof (intro conjI impI)
  let ?r = "ransac_segm float_mul mc rnd points points_all weights labels table_prob min_samples
                residual_threshold max_trials"
  {
    assume a: "check_min_samples float_mul min_samples points \<noteq> Inl ValueError \<and> 0 \<le> max_trials
            \<and> (points \<noteq> [] \<or> max_trials = 0) \<and> (\<forall>out \<in> set outs. out = Degenerate)"
    have "\<exists>n. check_min_samples float_mul min_samples points = Inr n"
    proof (cases "check_min_samples float_mul min_samples points")
      case (Inl e)
      then have "e = ValueError"
        by (auto simp: check_min_samples_def Let_def split: number.splits if_splits)
      with Inl a show ?thesis by simp
    next
      case (Inr n)
      then show ?thesis by blast
    qed
    then obtain n where n: "check_min_samples float_mul min_samples points = Inr n" by blast
    then have k: "sample_count float_mul min_samples points = nat n" by (simp add: sample_count_def)
    have deg: "run_outs xs st = Inr st" if "\<forall>out \<in> set xs. out = Degenerate"
      for xs :: "'a outcome list" and st
      using that by (induction xs) auto
    let ?body = "ransac_trial mc rnd points points_all weights labels table_prob (nat n)
                   residual_threshold"
    have "ransac_loop ?body [0..<nat max_trials] init_state = Inr init_state"
    proof (cases "points = []")
      case True
      with a have "max_trials = 0" by simp
      then show ?thesis by simp
    next
      case False
      then show ?thesis using a deg[of outs init_state] assms k
        by (simp add: ransac_loop_run_outs)
    qed
    with n a show "?r = Inr (None, None)"
      by (simp add: ransac_segm_def init_state_def)
  }
  assume r: "?r = Inr (bm, bi)"
  from ransac_segm_Inr[OF r] assms obtain st where
    run: "run_outs outs init_state = Inr st"
    and bi: "bi = best_inliers st"
    and bm: "bm = map_option (final_estimate mc points bi) (best_model st)"
    and both: "bi \<noteq> None \<longrightarrow> best_model st \<noteq> None"
    by auto
  from run_outs_inv[OF run] have im: "inv_model outs st" and ii: "inv_inliers outs st"
    by simp_all
  have nr: "Raised e \<notin> set outs" for e using run_outs_no_raise[OF run] .
  have "fits outs = [] \<longleftrightarrow> (\<forall>out \<in> set outs. out = Degenerate)"
  proof
    assume "fits outs = []"
    then have "\<forall>out \<in> set outs. \<forall>m i f. out \<noteq> Fitted m i f" by (simp add: fits_empty_iff)
    then show "\<forall>out \<in> set outs. out = Degenerate"
      using nr by (metis outcome.exhaust)
  next
    assume "\<forall>out \<in> set outs. out = Degenerate"
    then show "fits outs = []" by (auto simp: fits_empty_iff)
  qed
  moreover have "best_model st = None \<longleftrightarrow> fits outs = []"
  proof
    assume "best_model st = None"
    with im show "fits outs = []" by (simp add: inv_model_def)
  next
    assume e: "fits outs = []"
    show "best_model st = None"
    proof (rule ccontr)
      assume "best_model st \<noteq> None"
      then obtain m where "best_model st = Some m" by auto
      with im obtain j i f where "j < length outs" "outs ! j = Fitted m i f"
        unfolding inv_model_def by blast
      then have "Fitted m i f \<in> set outs" by (metis nth_mem)
      with e show False by (auto simp: fits_empty_iff)
    qed
  qed
  ultimately show "bm = None \<longleftrightarrow> (\<forall>out \<in> set outs. out = Degenerate)"
    using bm by simp
  show "bi \<noteq> None \<longleftrightarrow> (\<exists>t. improving outs t \<and> 0 < inlier_num (outs ! t))"
  proof
    assume "bi \<noteq> None"
    then obtain msk where "best_inliers st = Some msk" using bi by auto
    with ii obtain t m f where "0 < best_inlier_num st" "improving outs t"
      "outs ! t = Fitted m msk f" "length (filter id msk) = best_inlier_num st"
      unfolding inv_inliers_def by blast
    then show "\<exists>t. improving outs t \<and> 0 < inlier_num (outs ! t)"
      by (auto simp: inlier_num_def)
  next
    assume "\<exists>t. improving outs t \<and> 0 < inlier_num (outs ! t)"
    then obtain t where "improving outs t" "0 < inlier_num (outs ! t)" by blast
    with ii have "0 < best_inlier_num st" unfolding inv_inliers_def
      by (metis less_le_trans)
    with ii show "bi \<noteq> None" using bi unfolding inv_inliers_def by auto
  qed
  show "bi = None" if "bm = None"
    using that bm both by auto
qed

text \<open>Claim C3 as stated fails: one successful trial none of whose residuals is below the
  threshold gives a model and no inlier mask. And on an empty point array no sample can be
  drawn: the first trial raises ValueError.\<close>

theorem ransac_segm_model_without_inliers:
  "ransac_segm times point_model (\<lambda>t j. t) pts3b [] [] [] [] (PyInt 1) 0 1
     = Inr (Some (10, 4), None)
   \<and> trial point_model (\<lambda>t j. t) pts3b [] [] [] [] 1 0 0
     = Fitted (10, 4) [False, False, False] 4
   \<and> ransac_segm times point_model (\<lambda>t j. t) [] [] [] [] [] (PyInt 1) 1 1 = Inl ValueError"
  by (simp add: ransac_segm_def check_min_samples_def ransac_trial_def draw_samples_def
      point_model_def pts3b_def upt_rec accept_def fit_less_def init_state_def
      final_estimate_def select_mask_def trial_def)

text \<open>Two trials without samples both fail; one successful trial without inliers.\<close>

theorem ransac_segm_none_iff_witness:
  "ransac_segm times point_model (\<lambda>t j. t) pts3b [] [] [] [] (PyInt 0) 2 2 = Inr (None, None)
   \<and> ransac_segm times point_model (\<lambda>t j. t) pts3b [] [] [] [] (PyInt 1) 0 1
       = Inr (Some (10, 4), None)
   \<and> \<not> (\<exists>t. improving [Fitted (10::real, 4::real) [False, False, False] 4] t
            \<and> 0 < inlier_num ([Fitted (10::real, 4::real) [False, False, False] 4] ! t))"
proof -
  have sc0: "sample_count times (PyInt 0) pts3b = 0" and sc1: "sample_count times (PyInt 1) pts3b = 1"
    by (simp_all add: sample_count_def check_min_samples_def)
  have outs0: "[Degenerate, Degenerate]
     = map (trial point_model (\<lambda>t j. t) pts3b [] [] [] [] (sample_count times (PyInt 0) pts3b) 2)
         [0..<nat 2]"
    unfolding sc0 by (simp add: trial_def point_model_def pts3b_def upt_rec)
  have pre: "check_min_samples times (PyInt 0) pts3b \<noteq> Inl ValueError \<and> (0::int) \<le> 2
       \<and> (pts3b \<noteq> [] \<or> (2::int) = 0)
       \<and> (\<forall>out \<in> set [Degenerate, Degenerate :: point outcome]. out = Degenerate)"
    by (simp add: check_min_samples_def pts3b_def)
  have a: "ransac_segm times point_model (\<lambda>t j. t) pts3b [] [] [] [] (PyInt 0) 2 2
       = Inr (None, None)"
    using ransac_segm_none_iff[OF outs0] pre by blast
  have outs1: "[Fitted (10, 4) [False, False, False] 4]
     = map (trial point_model (\<lambda>t j. t) pts3b [] [] [] [] (sample_count times (PyInt 1) pts3b) 0)
         [0..<nat 1]"
    unfolding sc1 by (simp add: trial_def point_model_def pts3b_def upt_rec)
  have run: "ransac_segm times point_model (\<lambda>t j. t) pts3b [] [] [] [] (PyInt 1) 0 1
     = Inr (Some (10, 4), None)"
    by (simp add: ransac_segm_def check_min_samples_def ransac_trial_def draw_samples_def
        point_model_def pts3b_def upt_rec accept_def fit_less_def init_state_def
        final_estimate_def select_mask_def)
  have "\<not> (\<exists>t. improving [Fitted (10::real, 4::real) [False, False, False] 4] t
            \<and> 0 < inlier_num ([Fitted (10::real, 4::real) [False, False, False] 4] ! t))"
    using ransac_segm_none_iff[OF outs1, of "Some (10, 4)" None] run by blast
  with a run show ?thesis by blast
qed

text \<open>
  Claim C4. When an inlier mask is returned, the returned model is the best model by
  criterion, estimated once more on exactly the points that the mask selects; the mask is
  the inlier mask of the first criterion-improving trial with the largest number of inliers
  among the criterion-improving trials, whichever trial the model stems from. Without a mask
  the model is returned as its trial estimated it.
\<close>

theorem ransac_segm_final_estimate:
  assumes "ransac_segm float_mul mc rnd points points_all weights labels table_prob min_samples
             residual_threshold max_trials = Inr (bm, bi)"
    and "outs = map (trial mc rnd points points_all weights labels table_prob
                       (sample_count float_mul min_samples points) residual_threshold)
                  [0..<nat max_trials]"
  shows "(bi = None \<longrightarrow>
            (\<forall>m. bm = Some m \<longrightarrow> (\<exists>j i f. j < length outs \<and> outs ! j = Fitted m i f)))
       \<and> (\<forall>msk. bi = Some msk \<longrightarrow>
            (\<exists>j m0 i0 f0 t m f.
               j < length outs \<and> outs ! j = Fitted m0 i0 f0
               \<and> (\<forall>f' \<in> set (fits outs). f0 \<le> f')
               \<and> (\<forall>f' \<in> set (fits (take j outs)). f0 < f')
               \<and> bm = Some (snd (mc_estimate mc m0 (select_mask points msk)))
               \<and> improving outs t \<and> outs ! t = Fitted m msk f
               \<and> (\<forall>s. improving outs s \<longrightarrow> inlier_num (outs ! s) \<le> length (filter id msk))
               \<and> (\<forall>s<t. improving outs s \<longrightarrow> inlier_num (outs ! s) < length (filter id msk))))"
proof -
  from ransac_segm_Inr[OF assms(1)] assms(2) obtain st where
    run: "run_outs outs init_state = Inr st"
    and bi: "bi = best_inliers st"
    and bm: "bm = map_option (final_estimate mc points bi) (best_model st)"
    and both: "bi \<noteq> None \<longrightarrow> best_model st \<noteq> None"
    by auto
  from run_outs_inv[OF run] have im: "inv_model outs st" and ii: "inv_inliers outs st"
    by simp_all
  have none: "\<exists>j i f. j < length outs \<and> outs ! j = Fitted m i f"
    if "bi = None" "bm = Some m" for m
  proof -
    from that bm have "best_model st = Some m"
      by (cases "best_model st") (simp_all add: final_estimate_def)
    with im show ?thesis unfolding inv_model_def by blast
  qed
  have some: "\<exists>j m0 i0 f0 t m f.
               j < length outs \<and> outs ! j = Fitted m0 i0 f0
               \<and> (\<forall>f' \<in> set (fits outs). f0 \<le> f')
               \<and> (\<forall>f' \<in> set (fits (take j outs)). f0 < f')
               \<and> bm = Some (snd (mc_estimate mc m0 (select_mask points msk)))
               \<and> improving outs t \<and> outs ! t = Fitted m msk f
               \<and> (\<forall>s. improving outs s \<longrightarrow> inlier_num (outs ! s) \<le> length (filter id msk))
               \<and> (\<forall>s<t. improving outs s \<longrightarrow> inlier_num (outs ! s) < length (filter id msk))"
    if msk: "bi = Some msk" for msk
  proof -
    from msk both obtain m0 where m0: "best_model st = Some m0" by auto
    with im obtain j i0 f0 where j: "j < length outs" "outs ! j = Fitted m0 i0 f0"
      "\<forall>f' \<in> set (fits outs). f0 \<le> f'" "\<forall>f' \<in> set (fits (take j outs)). f0 < f'"
      unfolding inv_model_def by blast
    have b: "bm = Some (snd (mc_estimate mc m0 (select_mask points msk)))"
      using bm m0 msk by (simp add: final_estimate_def)
    from ii msk bi obtain t m f where t: "improving outs t" "outs ! t = Fitted m msk f"
      "length (filter id msk) = best_inlier_num st"
      "\<forall>s<t. improving outs s \<longrightarrow> inlier_num (outs ! s) < best_inlier_num st"
      unfolding inv_inliers_def by metis
    from ii have mx: "\<forall>s. improving outs s \<longrightarrow> inlier_num (outs ! s) \<le> best_inlier_num st"
      unfolding inv_inliers_def by blast
    show ?thesis using j b t(1,2) t(4) mx unfolding t(3)[symmetric] by blast
  qed
  show ?thesis using none some by blast
qed

text \<open>The mask stems from the first trial, the model from the third one.\<close>

theorem ransac_segm_final_estimate_witness:
  "ransac_segm times point_model (\<lambda>t j. t) pts3 [] [] [] [] (PyInt 1) 2 3
     = Inr (Some (0, 5), Some [True, True, False])
   \<and> (\<exists>j m0 i0 f0 t m f. j \<noteq> t
        \<and> [Fitted (0, 5) [True, True, False] 5, Fitted (1, 5) [True, True, False] 5,
            Fitted (10, 4) [False, False, True] 4] ! j = Fitted m0 i0 f0
        \<and> Some (0, 5)
            = Some (snd (mc_estimate point_model m0 (select_mask pts3 [True, True, False])))
        \<and> improving [Fitted (0::real, 5::real) [True, True, False] 5,
            Fitted (1, 5) [True, True, False] 5, Fitted (10, 4) [False, False, True] 4] t
        \<and> [Fitted (0::real, 5::real) [True, True, False] 5, Fitted (1, 5) [True, True, False] 5,
            Fitted (10, 4) [False, False, True] 4] ! t = Fitted m [True, True, False] f)"
proof -
  let ?outs = "[Fitted (0::real, 5::real) [True, True, False] 5,
      Fitted (1, 5) [True, True, False] 5, Fitted (10, 4) [False, False, True] 4]"
  have sc: "sample_count times (PyInt 1) pts3 = 1"
    by (simp add: sample_count_def check_min_samples_def)
  have run: "ransac_segm times point_model (\<lambda>t j. t) pts3 [] [] [] [] (PyInt 1) 2 3
     = Inr (Some (0, 5), Some [True, True, False])"
    by (simp add: ransac_segm_def check_min_samples_def ransac_trial_def draw_samples_def
        point_model_def pts3_def upt_rec accept_def fit_less_def init_state_def
        final_estimate_def select_mask_def)
  have outs: "?outs
     = map (trial point_model (\<lambda>t j. t) pts3 [] [] [] [] (sample_count times (PyInt 1) pts3) 2)
         [0..<nat 3]"
    unfolding sc by (simp add: trial_def point_model_def pts3_def upt_rec)
  from ransac_segm_final_estimate[OF run outs, THEN conjunct2, rule_format, OF refl]
  obtain j m0 i0 f0 t m f where
    h: "j < length ?outs" "?outs ! j = Fitted m0 i0 f0"
      "\<forall>f' \<in> set (fits ?outs). f0 \<le> f'"
      "Some (0, 5)
         = Some (snd (mc_estimate point_model m0 (select_mask pts3 [True, True, False])))"
      "improving ?outs t" "?outs ! t = Fitted m [True, True, False] f"
    by (elim exE conjE)
  from h(1) have "j < 3" by simp
  then have jc: "j = 0 \<or> j = 1 \<or> j = 2" by arith
  from h(3) have f0: "f0 \<le> 4" by simp
  have j: "j = 2"
  proof (rule ccontr)
    assume "j \<noteq> 2"
    with jc have "j = 0 \<or> j = 1" by simp
    with h(2) have "f0 = 5" by auto
    with f0 show False by simp
  qed
  have "t \<noteq> 2"
  proof
    assume "t = 2"
    with h(6) show False by simp
  qed
  with j have "j \<noteq> t" by simp
  then have "j \<noteq> t \<and> ?outs ! j = Fitted m0 i0 f0
        \<and> Some (0, 5)
            = Some (snd (mc_estimate point_model m0 (select_mask pts3 [True, True, False])))
        \<and> improving ?outs t \<and> ?outs ! t = Fitted m [True, True, False] f"
    using h(2,4,5,6) by simp
  then show ?thesis using run by blast
qed

text \<open>
  Claim C5, as amended. A fraction \<open>min_samples\<close> outside the closed interval \<open>[0, 1]\<close>, a
  negative integer \<open>min_samples\<close> and a negative \<open>max_trials\<close> give ValueError, whatever the
  model class and the random numbers are; a fraction in \<open>[0, 1]\<close> behaves as the integer
  \<open>int(min_samples * len(points))\<close>, the truncated product of the two floats as the machine
  computes it.
\<close>

theorem ransac_segm_validation:
  "(f < 0 \<or> 1 < f \<longrightarrow>
      ransac_segm float_mul mc rnd points points_all weights labels table_prob (PyFloat f)
        residual_threshold max_trials = Inl ValueError)
   \<and> (n < 0 \<longrightarrow>
      ransac_segm float_mul mc rnd points points_all weights labels table_prob (PyInt n)
        residual_threshold max_trials = Inl ValueError)
   \<and> (max_trials < 0 \<longrightarrow>
      ransac_segm float_mul mc rnd points points_all weights labels table_prob min_samples
        residual_threshold max_trials = Inl ValueError)
   \<and> (0 \<le> f \<and> f \<le> 1 \<longrightarrow>
      ransac_segm float_mul mc rnd points points_all weights labels table_prob (PyFloat f)
        residual_threshold max_trials
      = ransac_segm float_mul mc rnd points points_all weights labels table_prob
          (PyInt (py_int (float_mul f (real (length points))))) residual_threshold max_trials)"
proof (intro conjI impI)
  assume "f < 0 \<or> 1 < f"
  then show "ransac_segm float_mul mc rnd points points_all weights labels table_prob (PyFloat f)
        residual_threshold max_trials = Inl ValueError"
    by (auto simp: ransac_segm_def check_min_samples_def)
next
  assume "n < 0"
  then show "ransac_segm float_mul mc rnd points points_all weights labels table_prob (PyInt n)
        residual_threshold max_trials = Inl ValueError"
    by (simp add: ransac_segm_def check_min_samples_def)
next
  assume "max_trials < 0"
  moreover have "check_min_samples float_mul min_samples points = Inl e \<Longrightarrow> e = ValueError"
    for e
    by (auto simp: check_min_samples_def Let_def split: number.splits if_splits)
  ultimately show "ransac_segm float_mul mc rnd points points_all weights labels table_prob
        min_samples residual_threshold max_trials = Inl ValueError"
    by (auto simp: ransac_segm_def split: sum.splits)
next
  assume f: "0 \<le> f \<and> f \<le> 1"
  then have "check_min_samples float_mul (PyFloat f) points
      = check_min_samples float_mul (PyInt (py_int (float_mul f (real (length points))))) points"
    by (simp add: check_min_samples_def Let_def)
  then show "ransac_segm float_mul mc rnd points points_all weights labels table_prob (PyFloat f)
        residual_threshold max_trials
      = ransac_segm float_mul mc rnd points points_all weights labels table_prob
          (PyInt (py_int (float_mul f (real (length points))))) residual_threshold max_trials"
    by (simp add: ransac_segm_def)
qed

text \<open>Claim C5 as stated fails: the fraction \<open>0.0\<close> is not in \<open>(0, 1]\<close> and is accepted.\<close>

theorem ransac_segm_zero_fraction_accepted:
  "\<not> (0 < (0::real) \<and> (0::real) \<le> 1)
   \<and> ransac_segm times point_model (\<lambda>t j. t) pts3b [] [] [] [] (PyFloat 0) 2 2 = Inr (None, None)"
  by (simp add: ransac_segm_def check_min_samples_def py_int_def Let_def ransac_trial_def
      draw_samples_def point_model_def pts3b_def upt_rec accept_def fit_less_def
      init_state_def final_estimate_def select_mask_def)

text \<open>The fraction 2, the count -1, the trial budget -1, and the fraction 1/2 of three
  points, whose product 1.5 is exact in doubles.\<close>

theorem ransac_segm_validation_witness:
  "ransac_segm times point_model (\<lambda>t j. t) pts3b [] [] [] [] (PyFloat 2) 2 3 = Inl ValueError
   \<and> ransac_segm times point_model (\<lambda>t j. t) pts3b [] [] [] [] (PyInt (- 1)) 2 3 = Inl ValueError
   \<and> ransac_segm times point_model (\<lambda>t j. t) pts3b [] [] [] [] (PyInt 1) 2 (- 1) = Inl ValueError
   \<and> ransac_segm times point_model (\<lambda>t j. t) pts3b [] [] [] [] (PyFloat (1 / 2)) 2 3
       = ransac_segm times point_model (\<lambda>t j. t) pts3b [] [] [] [] (PyInt 1) 2 3"
proof -
  have fl: "py_int (times (1 / 2) (real (length pts3b))) = 1"
    by (simp add: pts3b_def py_int_def)
  have a: "ransac_segm times point_model (\<lambda>t j. t) pts3b [] [] [] [] (PyFloat 2) 2 3
      = Inl ValueError"
    using ransac_segm_validation[where f = 2 and float_mul = times and mc = point_model
        and rnd = "\<lambda>t j. t" and points = pts3b and points_all = "[]" and weights = "[]"
        and labels = "[]" and table_prob = "[]" and residual_threshold = 2
        and max_trials = 3]
    by simp
  have b: "ransac_segm times point_model (\<lambda>t j. t) pts3b [] [] [] [] (PyInt (- 1)) 2 3
      = Inl ValueError"
    using ransac_segm_validation[where n = "- 1" and float_mul = times and mc = point_model
        and rnd = "\<lambda>t j. t" and points = pts3b and points_all = "[]" and weights = "[]"
        and labels = "[]" and table_prob = "[]" and residual_threshold = 2
        and max_trials = 3]
    by simp
  have c: "ransac_segm times point_model (\<lambda>t j. t) pts3b [] [] [] [] (PyInt 1) 2 (- 1)
      = Inl ValueError"
    using ransac_segm_validation[where min_samples = "PyInt 1" and float_mul = times
        and mc = point_model
        and rnd = "\<lambda>t j. t" and points = pts3b and points_all = "[]" and weights = "[]"
        and labels = "[]" and table_prob = "[]" and residual_threshold = 2
        and max_trials = "- 1"]
    by simp
  have d: "ransac_segm times point_model (\<lambda>t j. t) pts3b [] [] [] [] (PyFloat (1 / 2)) 2 3
       = ransac_segm times point_model (\<lambda>t j. t) pts3b [] [] [] [] (PyInt 1) 2 3"
    using ransac_segm_validation[where f = "1 / 2" and float_mul = times and mc = point_model
        and rnd = "\<lambda>t j. t" and points = pts3b and points_all = "[]" and weights = "[]"
        and labels = "[]" and table_prob = "[]" and residual_threshold = 2
        and max_trials = 3]
    unfolding fl by simp
  from a b c d show ?thesis by simp
qed

section \<open>Properties: add_overlap_ellipse\<close>

lemma add_overlap_ellipse_None:
  "add_overlap_ellipse ellipse segm None label thr_overlap = Inr segm"
  by (simp add: add_overlap_ellipse_def)

lemma add_overlap_ellipse_result:
  assumes "add_overlap_ellipse ellipse segm (Some (c1, c2, h, w, phi)) label thr_overlap
             = Inr segm'"
  shows "segm' = segm \<or>
         segm' = paint segm
                   (ellipse (py_int c1) (py_int c2) (py_int h) (py_int w) phi (shape segm)) label"
  using assms
  by (auto simp: add_overlap_ellipse_def Let_def split: if_splits sum.splits bool.splits)

lemma paint_pixel:
  "r < length segm \<Longrightarrow> c < length (segm ! r) \<Longrightarrow>
   paint segm px label ! r ! c = (if (r, c) \<in> set px then label else segm ! r ! c)"
  by (simp add: paint_def)

lemma paint_shape:
  "length (paint segm px label) = length segm"
  "r < length segm \<Longrightarrow> length (paint segm px label ! r) = length (segm ! r)"
  by (simp_all add: paint_def)

lemma overlap_loop_exceeds:
  "overlap_loop segm px thr lbs = Inr True \<Longrightarrow>
   \<exists>lb \<in> set lbs. real (overlap_num segm px lb)
      / real (min (label_num segm lb) (mask_num segm px)) > thr"
  by (induction lbs) (auto simp: Let_def split: if_splits)

lemma overlap_loop_none_exceeds:
  "overlap_loop segm px thr lbs = Inr False \<Longrightarrow>
   \<forall>lb \<in> set lbs. \<not> real (overlap_num segm px lb)
      / real (min (label_num segm lb) (mask_num segm px)) > thr"
  by (induction lbs) (auto simp: Let_def split: if_splits)

lemma overlap_loop_absent_label:
  "lbs \<noteq> [] \<Longrightarrow> label_num segm (hd lbs) = 0 \<Longrightarrow>
   overlap_loop segm px thr lbs = Inl ZeroDivisionError"
  by (cases lbs) (simp_all add: Let_def)

lemma overlap_loop_True:
  "\<forall>lb \<in> set lbs. 0 < min (label_num segm lb) (mask_num segm px) \<Longrightarrow>
   \<exists>lb \<in> set lbs. real (overlap_num segm px lb)
      / real (min (label_num segm lb) (mask_num segm px)) > thr \<Longrightarrow>
   overlap_loop segm px thr lbs = Inr True"
  by (induction lbs) (auto simp: Let_def)

lemma overlap_loop_False:
  "\<forall>lb \<in> set lbs. 0 < min (label_num segm lb) (mask_num segm px) \<Longrightarrow>
   \<forall>lb \<in> set lbs. \<not> real (overlap_num segm px lb)
      / real (min (label_num segm lb) (mask_num segm px)) > thr \<Longrightarrow>
   overlap_loop segm px thr lbs = Inr False"
  by (induction lbs) (auto simp: Let_def)

text \<open>Where every label from 1 to the largest one is on the canvas and the mask is not
  empty, the function does what its comments say: the canvas is returned as it is when the
  ratio of some label exceeds the threshold, and otherwise exactly the pixels of the mask
  take the new label.\<close>

lemma add_overlap_ellipse_no_gap:
  assumes "px = ellipse (py_int c1) (py_int c2) (py_int h) (py_int w) phi (shape segm)"
    and "\<forall>(r, c) \<in> set px. r < fst (shape segm) \<and> c < snd (shape segm)"
    and "concat segm \<noteq> []"
    and "\<forall>lb \<in> {1..Max (set (concat segm))}.
           0 < min (label_num segm lb) (mask_num segm px)"
  shows "add_overlap_ellipse ellipse segm (Some (c1, c2, h, w, phi)) label thr_overlap =
     (if \<exists>lb \<in> {1..Max (set (concat segm))}. real (overlap_num segm px lb)
            / real (min (label_num segm lb) (mask_num segm px)) > thr_overlap
      then Inr segm else Inr (paint segm px label))"
proof -
  let ?lbs = "[1..Max (set (concat segm))]"
  have rng: "\<not> (\<exists>(r, c) \<in> set px. \<not> (r < fst (shape segm) \<and> c < snd (shape segm)))"
    using assms(2) by auto
  have pos: "\<forall>lb \<in> set ?lbs. 0 < min (label_num segm lb) (mask_num segm px)"
    using assms(4) by simp
  show ?thesis
  proof (cases "\<exists>lb \<in> {1..Max (set (concat segm))}. real (overlap_num segm px lb)
            / real (min (label_num segm lb) (mask_num segm px)) > thr_overlap")
    case True
    then have "overlap_loop segm px thr_overlap ?lbs = Inr True"
      using overlap_loop_True[OF pos] by simp
    with True rng assms(3) show ?thesis
      by (simp add: add_overlap_ellipse_def Let_def assms(1)[symmetric])
  next
    case False
    then have "overlap_loop segm px thr_overlap ?lbs = Inr False"
      using overlap_loop_False[OF pos] by simp
    with False rng assms(3) show ?thesis
      by (simp add: add_overlap_ellipse_def Let_def assms(1)[symmetric])
  qed
qed

text \<open>
  Claim C9 on a canvas that holds the label 2 and not the label 1: the mask of the ellipse
  covers the object of label 2 with the ratio 1, above the threshold 1/2, and the function
  raises ZeroDivisionError at the label 1 instead of returning the canvas.
\<close>

theorem add_overlap_ellipse_gap_overlapping:
  "add_overlap_ellipse (\<lambda>c1 c2 h w phi shp. [(0, 1)]) [[0, 2]] (Some (0, 1, 1, 1, 0)) 3 (1 / 2)
     = Inl ZeroDivisionError
   \<and> real (overlap_num [[0, 2]] [(0, 1)] 2)
       / real (min (label_num [[0, 2]] 2) (mask_num [[0, 2]] [(0, 1)])) = 1"
  by (simp add: add_overlap_ellipse_def shape_def upto.simps label_num_def mask_num_def
      overlap_num_def coords_def upt_rec)

text \<open>
  Claim C10 on a canvas that holds the label 2 and not the label 1: the mask of the ellipse
  overlaps no object, and the function raises ZeroDivisionError at the label 1 instead of
  setting the pixels of the mask.
\<close>

theorem add_overlap_ellipse_gap_disjoint:
  "add_overlap_ellipse (\<lambda>c1 c2 h w phi shp. [(0, 0)]) [[0, 0, 2]] (Some (0, 0, 1, 1, 0)) 3 1
     = Inl ZeroDivisionError
   \<and> overlap_num [[0, 0, 2]] [(0, 0)] 2 = 0"
  by (simp add: add_overlap_ellipse_def shape_def upto.simps label_num_def mask_num_def
      overlap_num_def coords_def upt_rec)

section \<open>Properties: Boundary points\<close>

lemma far_apart_reduce_greedy: "far_apart thr (reduce_greedy ps thr)"
  by (induction ps) (auto simp: far_apart_def sorted_wrt_filter)

lemma argmin_less: "xs \<noteq> [] \<Longrightarrow> argmin xs < length xs"
proof -
  assume "xs \<noteq> []"
  then have "Min (set xs) \<in> set xs" by (intro Min_in) simp_all
  then have "takeWhile (\<lambda>x. x \<noteq> Min (set xs)) xs \<noteq> xs"
    by (metis (mono_tags, lifting) takeWhile_eq_all_conv)
  then show ?thesis unfolding argmin_def
    by (metis length_takeWhile_le le_neq_implies_less takeWhile_eq_take take_all_iff
        order_refl)
qed

lemma argmin_first:
  assumes "xs \<noteq> []"
  shows "xs ! argmin xs = Min (set xs)" and "\<forall>j < argmin xs. xs ! argmin xs < xs ! j"
proof -
  let ?P = "\<lambda>x. x \<noteq> Min (set xs)"
  have lt: "argmin xs < length xs" using assms by (rule argmin_less)
  have "\<not> ?P (xs ! length (takeWhile ?P xs))"
    using lt unfolding argmin_def by (rule nth_length_takeWhile)
  then show m: "xs ! argmin xs = Min (set xs)" by (simp add: argmin_def)
  show "\<forall>j < argmin xs. xs ! argmin xs < xs ! j"
  proof (intro allI impI)
    fix j assume j: "j < argmin xs"
    then have "takeWhile ?P xs ! j = xs ! j" unfolding argmin_def
      by (rule takeWhile_nth)
    moreover have "takeWhile ?P xs ! j \<in> set (takeWhile ?P xs)"
      using j unfolding argmin_def by (rule nth_mem)
    ultimately have ne: "xs ! j \<noteq> Min (set xs)" by (auto dest: set_takeWhileD)
    have "xs ! j \<in> set xs" using j lt by simp
    then have "Min (set xs) \<le> xs ! j" by simp
    with ne m show "xs ! argmin xs < xs ! j" by simp
  qed
qed

text \<open>Every point is in the group of its nearest centre, the first one among the nearest
  centres.\<close>

lemma group_by_center_nearest:
  assumes "i < length (group_by_center centers points)"
  shows "set (group_by_center centers points ! i)
           = {p \<in> set points. close_center_of centers p = i}"
proof -
  have n: "i < Suc (Max (set (map (close_center_of centers) points)))"
    using assms by (simp add: group_by_center_def Let_def)
  have "select_mask points (map (\<lambda>k. k = i) (map (close_center_of centers) points))
      = filter (\<lambda>p. close_center_of centers p = i) points"
    unfolding select_mask_def
    by (induction points) simp_all
  then show ?thesis
    using n by (simp add: group_by_center_def Let_def del: upt_Suc)
qed

lemma group_by_center_covers:
  assumes "p \<in> set points"
  shows "close_center_of centers p < length (group_by_center centers points)"
proof -
  have "close_center_of centers p \<in> set (map (close_center_of centers) points)"
    using assms by simp
  then have "close_center_of centers p \<le> Max (set (map (close_center_of centers) points))"
    by (intro Max_ge) simp_all
  then show ?thesis by (simp add: group_by_center_def Let_def)
qed

lemma close_center_of_nearest:
  assumes "centers \<noteq> []"
  shows "close_center_of centers p < length centers"
    and "\<forall>c \<in> set centers. euclid p (centers ! close_center_of centers p) \<le> euclid p c"
    and "\<forall>j < close_center_of centers p.
           euclid p (centers ! close_center_of centers p) < euclid p (centers ! j)"
proof -
  let ?ds = "map (euclid p) centers"
  have ne: "?ds \<noteq> []" using assms by simp
  show lt: "close_center_of centers p < length centers"
    using argmin_less[OF ne] by (simp add: close_center_of_def)
  have m: "?ds ! argmin ?ds = Min (set ?ds)" using argmin_first(1)[OF ne] .
  show "\<forall>c \<in> set centers. euclid p (centers ! close_center_of centers p) \<le> euclid p c"
  proof
    fix c assume "c \<in> set centers"
    then have "euclid p c \<in> set ?ds" by simp
    then have "Min (set ?ds) \<le> euclid p c" by (intro Min_le) simp_all
    with m lt show "euclid p (centers ! close_center_of centers p) \<le> euclid p c"
      by (simp add: close_center_of_def)
  qed
  show "\<forall>j < close_center_of centers p.
           euclid p (centers ! close_center_of centers p) < euclid p (centers ! j)"
    using argmin_first(2)[OF ne] lt by (simp add: close_center_of_def)
qed

text \<open>The array returned for a centre is the deduplicated background part followed by the
  deduplicated foreground part; the joined array is not deduplicated.\<close>

lemma ray_join_parts:
  assumes "split_segm_background_foreground fts seg sel_bg sel_fg = (seg_bg, seg_fg)"
    and "k < length centers"
  shows "prepare_boundary_points_ray_join fts seg centers close_points min_diam sel_bg sel_fg
           ! k
         = reduce_close_points fts
             (reconstruct_ray_features_2d fts (centers ! k)
                (clamp_rays min_diam
                   (compute_ray_features_segm_2d fts seg_bg (centers ! k) Up)) 0)
             close_points
           @ reduce_close_points fts
               (reconstruct_ray_features_2d fts (centers ! k)
                  (clamp_rays min_diam
                     (compute_ray_features_segm_2d fts seg_fg (centers ! k) Down)) 0)
               close_points"
  using assms by (simp add: prepare_boundary_points_ray_join_def Let_def)

lemma far_apart_twice: "ps \<noteq> [] \<Longrightarrow> 0 < thr \<Longrightarrow> \<not> far_apart thr (ps @ ps)"
proof -
  assume "ps \<noteq> []" "0 < thr"
  then obtain p where "p \<in> set ps" by (cases ps) auto
  moreover have "euclid p p = 0" by (simp add: euclid_def)
  ultimately have "\<exists>x \<in> set ps. \<exists>y \<in> set ps. \<not> thr \<le> euclid x y"
    using \<open>0 < thr\<close> by (intro bexI[of _ p]) simp_all
  then show ?thesis
    by (auto simp: far_apart_def sorted_wrt_append)
qed

text \<open>Whatever the collaborators compute: where the rays of the background and of the
  foreground of a centre are the same after they are raised to \<open>min_diam\<close> (all rays are
  shorter than \<open>min_diam\<close>, or not found) and give a point, the array returned for the centre
  holds every point twice, for every positive threshold.\<close>

lemma ray_join_same_rays:
  assumes "split_segm_background_foreground fts seg sel_bg sel_fg = (seg_bg, seg_fg)"
    and "k < length centers"
    and "clamp_rays min_diam (compute_ray_features_segm_2d fts seg_bg (centers ! k) Up)
       = clamp_rays min_diam (compute_ray_features_segm_2d fts seg_fg (centers ! k) Down)"
    and "reduce_close_points fts
           (reconstruct_ray_features_2d fts (centers ! k)
              (clamp_rays min_diam (compute_ray_features_segm_2d fts seg_bg (centers ! k) Up))
              0) close_points \<noteq> []"
    and "0 < close_points"
  shows "\<not> far_apart close_points
           (prepare_boundary_points_ray_join fts seg centers close_points min_diam sel_bg sel_fg
              ! k)"
  unfolding ray_join_parts[OF assms(1,2)] assms(3)[symmetric]
  using assms(4,5) by (rule far_apart_twice)



text \<open>Whatever the collaborators compute, the row \<open>[0, 2]\<close> with which \<open>points\<close> is
  initialised is among the points returned.\<close>

lemma ray_dist_spurious_point:
  assumes "prepare_boundary_points_ray_dist fts seg centers close_points sel_bg sel_fg
             = Inr groups"
  shows "(0, 2) \<in> set (concat groups)"
proof -
  obtain seg_bg seg_fg where s:
    "split_segm_background_foreground fts seg sel_bg sel_fg = (seg_bg, seg_fg)"
    by (cases "split_segm_background_foreground fts seg sel_bg sel_fg")
  let ?points = "[(0, 2)] @ concat (map (\<lambda>center.
      reduce_close_points fts
        (reconstruct_ray_features_2d fts center
           (compute_ray_features_segm_2d fts seg_bg center Up) 0) close_points) centers)"
  from assms s have g: "groups = group_by_center centers ?points" and "centers \<noteq> []"
    by (auto simp: prepare_boundary_points_ray_dist_def Let_def split: if_splits)
  have p: "(0, 2) \<in> set ?points" by simp
  let ?i = "close_center_of centers (0, 2)"
  from group_by_center_covers[OF p] have i: "?i < length groups" unfolding g .
  with group_by_center_nearest[of ?i centers ?points] p
  have "(0, 2) \<in> set (groups ! ?i)" unfolding g by blast
  with i show ?thesis by (metis nth_mem set_concat UN_I)
qed

text \<open>
  Claim C8 for one centre at (4, 9) whose four rays have the length 2: the rays give the
  points (4, 11), (6, 9), (4, 7) and (2, 9), and \<open>prepare_boundary_points_ray_dist\<close> returns
  the point (0, 2) with them, which no ray of the centre gives.
\<close>

theorem ray_dist_point_without_ray:
  "prepare_boundary_points_ray_dist axis_fts [[0, 1], [0, 0]] [(4, 9)] 1 1 0
     = Inr [[(0, 2), (4, 11), (6, 9), (4, 7), (2, 9)]]
   \<and> reduce_close_points axis_fts
        (reconstruct_ray_features_2d axis_fts (4, 9)
           (compute_ray_features_segm_2d axis_fts [[True, False], [True, True]] (4, 9) Up) 0) 1
     = [(4, 11), (6, 9), (4, 7), (2, 9)]"
  by (simp add: prepare_boundary_points_ray_dist_def split_segm_background_foreground_def
      axis_fts_def axis_points_def euclid_def group_by_center_def close_center_of_def
      argmin_def select_mask_def)

section \<open>Properties: segment_image\<close>

lemma hard_segmentation_events:
  assumes "hard_segmentation env params classif imgs_idx_path path_out path_visu
             = (evs, Inr (idx_name, img, slic, fts, segm))"
  shows "take2d (predict classif fts) slic = Inr segm"
    and "SaveImage (path_join path_out (idx_name @ ''.png'')) (as_uint8 segm) \<in> set evs"
    and "GraphCut \<notin> set evs"
  using assms
  by (auto simp: hard_segmentation_def Let_def export_draw_image_segm_contour_def
      split: prod.splits sum.splits if_splits)

text \<open>
  Claim C6. When the statements before the \<open>try\<close> have produced and saved the hard-label
  segmentation \<open>labels[slic]\<close> and \<open>predict_proba\<close> raises, \<open>segment_image\<close> returns normally:
  it logs one warning after the events of the hard-label part, returns the hard-label
  segmentation with an array of zeros in the place of the graph cut segmentation, and the
  graph cut solver is not called.
\<close>

theorem segment_image_without_proba:
  assumes "hard_segmentation env params classif imgs_idx_path path_out path_visu
             = (evs, Inr (idx_name, img, slic, fts, segm))"
    and "predict_proba classif fts = Inl e"
  shows "segment_image env params classif imgs_idx_path path_out path_visu show_debug_imgs
           = (evs @ [LogWarning ''classif: %s not support predict_proba(.)'' (repr classif)],
              Inr (idx_name, segm, map (map (\<lambda>v. 0)) segm))
       \<and> take2d (predict classif fts) slic = Inr segm
       \<and> SaveImage (path_join path_out (idx_name @ ''.png'')) (as_uint8 segm) \<in> set evs
       \<and> GraphCut \<notin> set evs"
proof -
  have soft: "soft_segmentation classif path_out idx_name slic fts
      = ([LogWarning ''classif: %s not support predict_proba(.)'' (repr classif)], None)"
    using assms(2) by (simp add: soft_segmentation_def)
  have "segment_image env params classif imgs_idx_path path_out path_visu show_debug_imgs
           = (evs @ [LogWarning ''classif: %s not support predict_proba(.)'' (repr classif)],
              Inr (idx_name, segm, map (map (\<lambda>v. 0)) segm))"
    by (simp add: segment_image_def assms(1) soft)
  with hard_segmentation_events[OF assms(1)] show ?thesis by simp
qed

lemma hard_segmentation_env0:
  "hard_segmentation env0 params0 classif0 (0, ''a.jpg'') ''out'' None
     = ([LogDebug (''segmenting image: '' @ [CHR 0x22] @ ''%s'' @ [CHR 0x22]) ''a.jpg'',
         LogDebug ''export segmentation: %s'' ''out/img.png'',
         SaveImage ''out/img.png'' [[5, 7]]],
        Inr (''img'', (), [[0, 1]], [[1], [2]], [[5, 7]]))"
  by (simp add: hard_segmentation_def env0_def params0_def classif0_def take2d_def
      np_index_def path_join_def as_uint8_def visu_dir_def Let_def)

text \<open>The run for the classifier without probabilities.\<close>

theorem segment_image_without_proba_witness:
  "segment_image env0 params0 classif0 (0, ''a.jpg'') ''out'' None False
     = ([LogDebug (''segmenting image: '' @ [CHR 0x22] @ ''%s'' @ [CHR 0x22]) ''a.jpg'',
         LogDebug ''export segmentation: %s'' ''out/img.png'',
         SaveImage ''out/img.png'' [[5, 7]],
         LogWarning ''classif: %s not support predict_proba(.)'' ''LinearSVC()''],
        Inr (''img'', [[5, 7]], [[0, 0]]))"
proof -
  have p: "predict_proba classif0 [[1], [2]] = Inl AttributeError"
    by (simp add: classif0_def)
  have r: "repr classif0 = ''LinearSVC()''" by (simp add: classif0_def)
  from segment_image_without_proba[OF hard_segmentation_env0 p, of False]
  show ?thesis unfolding r by simp
qed

end
